theory Spec2Isabelle
  imports Complex_Main "HOL-Library.Word"
begin

unbundle bit_operations_syntax

chapter \<open>The SOP lifecycle engine of vision_cortex\<close>

text \<open>
  A shallow embedding of \<^verbatim>\<open>doc_system/auto_sop_agent.py\<close> (class \<^verbatim>\<open>AutoSOPAgent\<close>:
  creating, executing, validating and refining Standard Operating Procedures) and of
  \<^verbatim>\<open>doc_system/sop_validator_refiner.py\<close> (class \<^verbatim>\<open>SOPValidator\<close>: the five
  checks, the quality score and the approval verdict).

  Conventions of the embedding.
  \<^item> A dataclass is a record with the fields of the source in the source's order. Where two
    classes have a field of the same name the field is written with its class, as in
    \<open>SOPStep.name\<close>.
  \<^item> Python's \<^verbatim>\<open>int\<close> is \<open>int\<close>. A \<^verbatim>\<open>float\<close> is \<open>rat\<close>: the quality score only
    ever holds \<open>100\<close> minus integers and halves, and the self-test values read below are
    \<open>0\<close> and \<open>100\<close>, all of which binary floating point represents exactly.
  \<^item> A \<^verbatim>\<open>str\<close> is a \<open>string\<close> whose characters are the code points below 256.
  \<^item> A \<^verbatim>\<open>dict\<close> keyed by identifiers or step numbers is a map; the \<^verbatim>\<open>updates\<close>
    argument of \<^verbatim>\<open>refine_sop\<close>, which is iterated, is the list of its items in iteration
    order.
  \<^item> The field \<^verbatim>\<open>output\<close> of an execution is \<open>execution_output\<close> (\<open>output\<close> is a
    keyword of Isabelle).
  \<^item> The clock, the process runner and the interpreter are the environment: every call
    takes the values it reads from them as arguments.
  \<^item> Writing to the log, to \<^verbatim>\<open>operations_log\<close> and to disk (\<^verbatim>\<open>_save_sop\<close>, which
    catches its own exceptions) changes nothing that a modelled function reads, and is left
    out.
\<close>

section \<open>Python built-ins used by the source\<close>

subsection \<open>\<^verbatim>\<open>str(n)\<close> and f-string formatting of an integer\<close>

fun nat_digits :: "nat \<Rightarrow> string" where
  "nat_digits n =
     (if n < 10 then [char_of (48 + n)]
      else nat_digits (n div 10) @ [char_of (48 + n mod 10)])"

declare nat_digits.simps [simp del]

definition py_str :: "int \<Rightarrow> string" where
  "py_str i = (if i < 0 then CHR ''-'' # nat_digits (nat (- i)) else nat_digits (nat i))"

subsection \<open>\<^verbatim>\<open>int(s)\<close> on a string\<close>

text \<open>
  \<^verbatim>\<open>int(s)\<close> strips surrounding white space (tab to carriage return, the space, and
  of the characters above 127 the next-line and the no-break space; the separators 28 to
  31 are not stripped), reads an optional sign and then decimal digits, between which
  single underscores may stand; anything else raises \<^verbatim>\<open>ValueError\<close> (\<open>None\<close>). The
  interpreter's configurable bound on the number of digits that \<^verbatim>\<open>int(s)\<close> and
  \<^verbatim>\<open>str(n)\<close> convert (4300 by default where there is one) is not part of the model.
\<close>

definition py_isspace :: "char \<Rightarrow> bool" where
  "py_isspace c =
     (let n = (of_char c :: nat)
      in (9 \<le> n \<and> n \<le> 13) \<or> n = 32 \<or> n = 133 \<or> n = 160)"

definition py_strip :: "string \<Rightarrow> string" where
  "py_strip s = rev (dropWhile py_isspace (rev (dropWhile py_isspace s)))"

definition is_digit :: "char \<Rightarrow> bool" where
  "is_digit c = (let n = (of_char c :: nat) in 48 \<le> n \<and> n \<le> 57)"

definition digit_val :: "char \<Rightarrow> int" where
  "digit_val c = int (of_char c) - 48"

text \<open>
  \<open>parse_digits acc prev s\<close>: \<open>acc\<close> is the value read so far and \<open>prev\<close> says that the
  previous character was a digit (an underscore needs a digit on both sides).
\<close>

fun parse_digits :: "int \<Rightarrow> bool \<Rightarrow> string \<Rightarrow> int option" where
  "parse_digits acc prev [] = (if prev then Some acc else None)"
| "parse_digits acc prev (c # cs) =
     (if is_digit c then parse_digits (acc * 10 + digit_val c) True cs
      else if c = CHR ''_'' \<and> prev then
        (case cs of [] \<Rightarrow> None
         | d # _ \<Rightarrow> if is_digit d then parse_digits acc False cs else None)
      else None)"

definition py_int :: "string \<Rightarrow> int option" where
  "py_int s =
     (case py_strip s of
        [] \<Rightarrow> None
      | c # cs \<Rightarrow>
          if c = CHR ''-'' then map_option uminus (parse_digits 0 False cs)
          else if c = CHR ''+'' then parse_digits 0 False cs
          else parse_digits 0 False (c # cs))"

subsection \<open>\<^verbatim>\<open>s.split('.')\<close> and \<^verbatim>\<open>'.'.join(parts)\<close>\<close>

fun split_on :: "char \<Rightarrow> string \<Rightarrow> string list" where
  "split_on sep [] = [[]]"
| "split_on sep (c # cs) =
     (if c = sep then [] # split_on sep cs
      else (case split_on sep cs of
              [] \<Rightarrow> [[c]]
            | p # ps \<Rightarrow> (c # p) # ps))"

fun join_with :: "string \<Rightarrow> string list \<Rightarrow> string" where
  "join_with sep [] = []"
| "join_with sep [p] = p"
| "join_with sep (p # q # ps) = p @ sep @ join_with sep (q # ps)"

subsection \<open>The slice \<^verbatim>\<open>xs[start:]\<close>\<close>

text \<open>
  A negative start counts from the end; a start outside the list is clamped, never an
  error.
\<close>

definition py_slice_from :: "int \<Rightarrow> 'a list \<Rightarrow> 'a list" where
  "py_slice_from start xs =
     (let n = int (length xs);
          s = (if start < 0 then max 0 (start + n) else min start n)
      in drop (nat s) xs)"

section \<open>The data model\<close>

datatype SOPStatus = DRAFT | VALIDATED | IN_USE | DEPRECATED | ARCHIVED

datatype StepStatus = PENDING | RUNNING | COMPLETED | FAILED | SKIPPED

datatype ValidationLevel = PERMISSIVE | MODERATE | STRICT | CERTIFIED

text \<open>The records of \<^verbatim>\<open>sop_validator_refiner.py\<close>.\<close>

record ValidationFinding =
  finding_id :: string
  sop_id :: string
  finding_type :: string
  category :: string
  step_number :: "int option"
  message :: string
  recommendation :: string
  severity :: int
  fixed :: bool

text \<open>
  The refinement plan is a dictionary of two lists and a fixed text. An entry of
  \<^verbatim>\<open>priority_fixes\<close> holds \<^verbatim>\<open>step\<close>, \<^verbatim>\<open>issue\<close> and \<^verbatim>\<open>action\<close>; an entry of
  \<^verbatim>\<open>quality_improvements\<close> holds \<^verbatim>\<open>step\<close>, \<^verbatim>\<open>category\<close> and \<^verbatim>\<open>suggestion\<close>.
\<close>

record plan =
  priority_fixes :: "(int option \<times> string \<times> string) list"
  quality_improvements :: "(int option \<times> string \<times> string) list"
  timeline :: string

record ValidationReport =
  validation_id :: string
  sop_id :: string
  sop_version :: string
  validation_date :: string
  validator_name :: string
  total_findings :: int
  errors :: int
  warnings :: int
  infos :: int
  suggestions :: int
  overall_quality_score :: rat
  is_approved :: bool
  findings :: "ValidationFinding list"
  recommendations :: "string list"
  refinement_plan :: plan

record SOPValidator =
  validator_name :: string
  validation_history :: "ValidationReport list"

text \<open>The records of \<^verbatim>\<open>auto_sop_agent.py\<close>.\<close>

record SOPStep =
  step_number :: int
  name :: string
  description :: string
  command :: string
  component :: string
  expected_output :: "string option"
  validation_check :: "string option"
  rollback_command :: "string option"
  timeout_seconds :: int
  retry_on_failure :: bool
  max_retries :: int
  dependencies :: "int list"
  tags :: "string list"

record SOPExecution =
  execution_id :: string
  sop_id :: string
  sop_version :: string
  start_time :: string
  end_time :: "string option"
  duration_seconds :: rat
  status :: StepStatus
  steps_completed :: int
  steps_total :: int
  success_rate :: rat
  failed_steps :: "int list"
  execution_output :: "int \<rightharpoonup> string"
  error :: "string option"

record SOPDefinition =
  sop_id :: string
  name :: string
  version :: string
  status :: SOPStatus
  description :: string
  component :: string
  purpose :: string
  created_date :: string
  last_modified :: string
  created_by :: string
  last_modified_by :: string
  steps :: "SOPStep list"
  prerequisites :: "string list"
  tags :: "string list"
  validation_level :: ValidationLevel
  execution_count :: int
  success_count :: int
  failure_count :: int
  average_duration :: rat
  content_hash :: string

text \<open>
  The state of an \<^verbatim>\<open>AutoSOPAgent\<close>: the SOPs by id and the executions in the order they
  were recorded.
\<close>

record AutoSOPAgent =
  sops :: "string \<rightharpoonup> SOPDefinition"
  execution_history :: "SOPExecution list"

section \<open>Executing a SOP\<close>

subsection \<open>The environment of one call\<close>

text \<open>
  \<^verbatim>\<open>subprocess.run\<close> either returns a completed process (return code, standard output,
  standard error), or raises \<^verbatim>\<open>TimeoutExpired\<close>, or raises something else, whose text is
  kept. What it does is up to the world: \<open>run k cmd t\<close> is the outcome of the \<open>k\<close>-th call of
  one execution, made with command \<open>cmd\<close> and timeout \<open>t\<close>.
\<close>

datatype proc_result = Completed int string string | TimeoutExpired | Raised string

datatype py_error = ZeroDivisionError

record exec_env =
  run :: "nat \<Rightarrow> string \<Rightarrow> int \<Rightarrow> proc_result"
  now_iso :: string  \<comment> \<open>\<^verbatim>\<open>start_time.isoformat()\<close>\<close>
  now_timestamp :: int  \<comment> \<open>\<^verbatim>\<open>int(start_time.timestamp())\<close>\<close>
  end_iso :: string  \<comment> \<open>\<^verbatim>\<open>datetime.now().isoformat()\<close> after the loop\<close>
  elapsed :: rat  \<comment> \<open>\<^verbatim>\<open>(datetime.now() - start_time).total_seconds()\<close>\<close>

text \<open>Truth of an \<^verbatim>\<open>Optional[str]\<close>: neither \<^verbatim>\<open>None\<close> nor empty.\<close>

definition truthy :: "string option \<Rightarrow> bool" where
  "truthy v = (case v of None \<Rightarrow> False | Some s \<Rightarrow> s \<noteq> [])"

subsection \<open>\<^verbatim>\<open>_execute_step\<close>\<close>

text \<open>
  The result is the pair \<^verbatim>\<open>(success, output)\<close> of the source and the number of calls of
  \<^verbatim>\<open>subprocess.run\<close> made so far. Every exception is caught inside the function.
\<close>

definition execute_step ::
  "(nat \<Rightarrow> string \<Rightarrow> int \<Rightarrow> proc_result) \<Rightarrow> nat \<Rightarrow> SOPStep \<Rightarrow> bool \<Rightarrow> (bool \<times> string) \<times> nat"
where
  "execute_step world k step dry_run =
     (if dry_run then ((True, ''[DRY RUN] '' @ command step), k)
      else
        (case world k (command step) (timeout_seconds step) of
           TimeoutExpired \<Rightarrow>
             ((False, ''Command timeout after '' @ py_str (timeout_seconds step) @ ''s''), Suc k)
         | Raised e \<Rightarrow> ((False, ''Execution error: '' @ e), Suc k)
         | Completed returncode stdout stderr \<Rightarrow>
             if truthy (validation_check step) \<and> returncode = 0 then
               (case world (Suc k) (the (validation_check step)) 30 of
                  TimeoutExpired \<Rightarrow>
                    ((False, ''Command timeout after '' @ py_str (timeout_seconds step) @ ''s''),
                     Suc (Suc k))
                | Raised e \<Rightarrow> ((False, ''Execution error: '' @ e), Suc (Suc k))
                | Completed vcode vout verr \<Rightarrow>
                    if vcode \<noteq> 0 then ((False, ''Validation failed: '' @ verr), Suc (Suc k))
                    else ((True, stdout), Suc (Suc k)))
             else if returncode = 0 then ((True, stdout), Suc k)
             else ((False, ''Command failed: '' @ stderr), Suc k)))"

subsection \<open>The loop over the steps\<close>

text \<open>
  The loop of \<^verbatim>\<open>execute_sop\<close> works on four variables: the record \<^verbatim>\<open>execution\<close> (of which
  it increments \<^verbatim>\<open>steps_completed\<close>), the list \<^verbatim>\<open>failed_steps\<close>, the dictionary
  \<^verbatim>\<open>step_outputs\<close>, and the number of processes started. The dependency test reads
  \<^verbatim>\<open>execution.output\<close>; the loop writes to \<^verbatim>\<open>step_outputs\<close>, and
  \<^verbatim>\<open>execution.output\<close> is assigned only after the loop. A failed dependency test is
  \<^verbatim>\<open>continue\<close>; a failed step with \<^verbatim>\<open>retry_on_failure\<close> unset is \<^verbatim>\<open>break\<close>.
\<close>

type_synonym loop_state = "SOPExecution \<times> int list \<times> (int \<rightharpoonup> string) \<times> nat"

definition deps_met :: "SOPExecution \<Rightarrow> SOPStep \<Rightarrow> bool" where
  "deps_met execution step =
     list_all (\<lambda>dep. execution_output execution dep \<noteq> None) (dependencies step)"

fun step_loop ::
  "(nat \<Rightarrow> string \<Rightarrow> int \<Rightarrow> proc_result) \<Rightarrow> bool \<Rightarrow> SOPStep list \<Rightarrow> loop_state \<Rightarrow> loop_state"
where
  "step_loop world dry_run [] st = st"
| "step_loop world dry_run (step # rest) (execution, failed, step_outputs, k) =
     (if dependencies step \<noteq> [] \<and> \<not> deps_met execution step then
        step_loop world dry_run rest (execution, failed @ [step_number step], step_outputs, k)
      else
        (case execute_step world k step dry_run of
           ((success, out), k') \<Rightarrow>
             if success then
               step_loop world dry_run rest
                 (execution\<lparr>steps_completed := steps_completed execution + 1\<rparr>, failed,
                  step_outputs(step_number step \<mapsto> out), k')
             else if \<not> retry_on_failure step then
               (execution, failed @ [step_number step], step_outputs(step_number step \<mapsto> out), k')
             else
               step_loop world dry_run rest
                 (execution, failed @ [step_number step],
                  step_outputs(step_number step \<mapsto> out), k')))"

subsection \<open>\<^verbatim>\<open>execute_sop\<close>\<close>

definition new_execution :: "exec_env \<Rightarrow> string \<Rightarrow> SOPDefinition \<Rightarrow> SOPExecution" where
  "new_execution env sid sop =
     \<lparr>execution_id = sid @ ''_'' @ py_str (now_timestamp env),
      SOPExecution.sop_id = sid,
      sop_version = version sop,
      start_time = now_iso env,
      end_time = None,
      duration_seconds = 0,
      SOPExecution.status = RUNNING,
      steps_completed = 0,
      steps_total = int (length (steps sop)),
      success_rate = 0,
      failed_steps = [],
      execution_output = Map.empty,
      error = None\<rparr>"

text \<open>The metrics computed after the loop.\<close>

definition finish_execution :: "exec_env \<Rightarrow> loop_state \<Rightarrow> SOPExecution" where
  "finish_execution env st =
     (case st of (execution, failed, step_outputs, k) \<Rightarrow>
        execution
          \<lparr>execution_output := step_outputs,
           failed_steps := failed,
           success_rate :=
             (if steps_total execution > 0
              then of_int (steps_completed execution) / of_int (steps_total execution) * 100
              else 0),
           SOPExecution.status := (if length failed = 0 then COMPLETED else FAILED),
           end_time := Some (end_iso env),
           duration_seconds := elapsed env\<rparr>)"

definition run_steps :: "exec_env \<Rightarrow> string \<Rightarrow> SOPDefinition \<Rightarrow> bool \<Rightarrow> SOPExecution" where
  "run_steps env sid sop dry_run =
     finish_execution env
       (step_loop (run env) dry_run (steps sop) (new_execution env sid sop, [], Map.empty, 0))"

text \<open>The counters of the SOP after an execution, before the average is recomputed.\<close>

definition count_execution :: "SOPExecution \<Rightarrow> SOPDefinition \<Rightarrow> SOPDefinition" where
  "count_execution execution sop =
     (let sop1 = sop\<lparr>execution_count := execution_count sop + 1\<rparr>
      in if SOPExecution.status execution = COMPLETED
         then sop1\<lparr>success_count := success_count sop1 + 1\<rparr>
         else sop1\<lparr>failure_count := failure_count sop1 + 1\<rparr>)"

text \<open>
  \<^verbatim>\<open>execute_sop\<close> returns \<^verbatim>\<open>(False, None)\<close> for an unknown id and \<^verbatim>\<open>(success, execution)\<close>
  otherwise. The division by the new \<^verbatim>\<open>execution_count\<close> raises when that count is zero;
  the counters have been written by then and the execution has not been recorded.
\<close>

definition execute_sop ::
  "exec_env \<Rightarrow> AutoSOPAgent \<Rightarrow> string \<Rightarrow> bool
     \<Rightarrow> (py_error + bool \<times> SOPExecution option) \<times> AutoSOPAgent"
where
  "execute_sop env agent sid dry_run =
     (case sops agent sid of
        None \<Rightarrow> (Inr (False, None), agent)
      | Some sop \<Rightarrow>
          let execution = run_steps env sid sop dry_run;
              sop1 = count_execution execution sop
          in if execution_count sop1 = 0 then
               (Inl ZeroDivisionError, agent\<lparr>sops := (sops agent)(sid \<mapsto> sop1)\<rparr>)
             else
               let total_duration =
                     average_duration sop1 * of_int (execution_count sop1 - 1)
                       + duration_seconds execution;
                   sop2 = sop1\<lparr>average_duration := total_duration / of_int (execution_count sop1)\<rparr>
               in (Inr (SOPExecution.status execution = COMPLETED, Some execution),
                   agent\<lparr>sops := (sops agent)(sid \<mapsto> sop2),
                         execution_history := execution_history agent @ [execution]\<rparr>))"

subsection \<open>\<^verbatim>\<open>get_execution_history\<close>\<close>

text \<open>
  The filter is applied when \<^verbatim>\<open>sop_id\<close> is neither \<^verbatim>\<open>None\<close> nor empty; the result is
  \<^verbatim>\<open>history[-limit:]\<close>.
\<close>

definition records_of :: "string \<Rightarrow> SOPExecution list \<Rightarrow> SOPExecution list" where
  "records_of sid history = filter (\<lambda>e. SOPExecution.sop_id e = sid) history"

definition get_execution_history :: "AutoSOPAgent \<Rightarrow> string option \<Rightarrow> int \<Rightarrow> SOPExecution list" where
  "get_execution_history agent sid limit =
     (let history =
            (if truthy sid then records_of (the sid) (execution_history agent)
             else execution_history agent)
      in py_slice_from (- limit) history)"

section \<open>The content hash\<close>

subsection \<open>\<^verbatim>\<open>json.dumps(..., sort_keys=True)\<close> of a list of steps\<close>

text \<open>
  With the default \<^verbatim>\<open>ensure_ascii\<close>, a character from the space to the tilde stands for
  itself, except the quote and the backslash; the JSON short escapes are used for
  backspace, form feed, newline, carriage return and tab; every other character is
  \<^verbatim>\<open>\u00XX\<close> in lower-case hexadecimal. Items are separated by a comma and a space, a key
  from its value by a colon and a space, and the keys of a step are in alphabetical order.
\<close>

definition hex_digit :: "nat \<Rightarrow> char" where
  "hex_digit n = (if n < 10 then char_of (48 + n) else char_of (87 + n))"

definition json_escape :: "char \<Rightarrow> string" where
  "json_escape c =
     (let n = (of_char c :: nat)
      in if n = 34 then [CHR 0x5C, CHR 0x22]
         else if n = 92 then [CHR 0x5C, CHR 0x5C]
         else if n = 8 then [CHR 0x5C, CHR ''b'']
         else if n = 12 then [CHR 0x5C, CHR ''f'']
         else if n = 10 then [CHR 0x5C, CHR ''n'']
         else if n = 13 then [CHR 0x5C, CHR ''r'']
         else if n = 9 then [CHR 0x5C, CHR ''t'']
         else if 32 \<le> n \<and> n \<le> 126 then [c]
         else [CHR 0x5C, CHR ''u'', CHR ''0'', CHR ''0'', hex_digit (n div 16), hex_digit (n mod 16)])"

definition json_str :: "string \<Rightarrow> string" where
  "json_str s = [CHR 0x22] @ concat (map json_escape s) @ [CHR 0x22]"

definition json_opt_str :: "string option \<Rightarrow> string" where
  "json_opt_str v = (case v of None \<Rightarrow> ''null'' | Some s \<Rightarrow> json_str s)"

definition json_bool :: "bool \<Rightarrow> string" where
  "json_bool b = (if b then ''true'' else ''false'')"

definition json_list :: "string list \<Rightarrow> string" where
  "json_list items = ''['' @ join_with '', '' items @ '']''"

definition json_member :: "string \<Rightarrow> string \<Rightarrow> string" where
  "json_member k v = json_str k @ '': '' @ v"

definition json_step :: "SOPStep \<Rightarrow> string" where
  "json_step s =
     ''{'' @ join_with '', ''
       [json_member ''command'' (json_str (command s)),
        json_member ''component'' (json_str (SOPStep.component s)),
        json_member ''dependencies'' (json_list (map py_str (dependencies s))),
        json_member ''description'' (json_str (SOPStep.description s)),
        json_member ''expected_output'' (json_opt_str (expected_output s)),
        json_member ''max_retries'' (py_str (max_retries s)),
        json_member ''name'' (json_str (SOPStep.name s)),
        json_member ''retry_on_failure'' (json_bool (retry_on_failure s)),
        json_member ''rollback_command'' (json_opt_str (rollback_command s)),
        json_member ''step_number'' (py_str (step_number s)),
        json_member ''tags'' (json_list (map json_str (SOPStep.tags s))),
        json_member ''timeout_seconds'' (py_str (timeout_seconds s)),
        json_member ''validation_check'' (json_opt_str (validation_check s))] @ ''}''"

definition json_dumps_steps :: "SOPStep list \<Rightarrow> string" where
  "json_dumps_steps ss = json_list (map json_step ss)"

subsection \<open>\<^verbatim>\<open>hashlib.sha256(...).hexdigest()\<close>\<close>

text \<open>SHA-256 (FIPS 180-4) over the bytes of the text, on 32-bit words.\<close>

type_synonym w32 = "32 word"

definition Ch :: "w32 \<Rightarrow> w32 \<Rightarrow> w32 \<Rightarrow> w32" where
  "Ch x y z = (x AND y) XOR (NOT x AND z)"

definition Maj :: "w32 \<Rightarrow> w32 \<Rightarrow> w32 \<Rightarrow> w32" where
  "Maj x y z = (x AND y) XOR (x AND z) XOR (y AND z)"

definition Sigma0 :: "w32 \<Rightarrow> w32" where
  "Sigma0 x = word_rotr 2 x XOR word_rotr 13 x XOR word_rotr 22 x"

definition Sigma1 :: "w32 \<Rightarrow> w32" where
  "Sigma1 x = word_rotr 6 x XOR word_rotr 11 x XOR word_rotr 25 x"

definition sigma0 :: "w32 \<Rightarrow> w32" where
  "sigma0 x = word_rotr 7 x XOR word_rotr 18 x XOR drop_bit 3 x"

definition sigma1 :: "w32 \<Rightarrow> w32" where
  "sigma1 x = word_rotr 17 x XOR word_rotr 19 x XOR drop_bit 10 x"

definition sha_K :: "w32 list" where
  "sha_K =
     [0x428A2F98, 0x71374491, 0xB5C0FBCF, 0xE9B5DBA5, 0x3956C25B, 0x59F111F1, 0x923F82A4, 0xAB1C5ED5,
      0xD807AA98, 0x12835B01, 0x243185BE, 0x550C7DC3, 0x72BE5D74, 0x80DEB1FE, 0x9BDC06A7, 0xC19BF174,
      0xE49B69C1, 0xEFBE4786, 0x0FC19DC6, 0x240CA1CC, 0x2DE92C6F, 0x4A7484AA, 0x5CB0A9DC, 0x76F988DA,
      0x983E5152, 0xA831C66D, 0xB00327C8, 0xBF597FC7, 0xC6E00BF3, 0xD5A79147, 0x06CA6351, 0x14292967,
      0x27B70A85, 0x2E1B2138, 0x4D2C6DFC, 0x53380D13, 0x650A7354, 0x766A0ABB, 0x81C2C92E, 0x92722C85,
      0xA2BFE8A1, 0xA81A664B, 0xC24B8B70, 0xC76C51A3, 0xD192E819, 0xD6990624, 0xF40E3585, 0x106AA070,
      0x19A4C116, 0x1E376C08, 0x2748774C, 0x34B0BCB5, 0x391C0CB3, 0x4ED8AA4A, 0x5B9CCA4F, 0x682E6FF3,
      0x748F82EE, 0x78A5636F, 0x84C87814, 0x8CC70208, 0x90BEFFFA, 0xA4506CEB, 0xBEF9A3F7, 0xC67178F2]"

definition sha_H0 :: "w32 list" where
  "sha_H0 =
     [0x6A09E667, 0xBB67AE85, 0x3C6EF372, 0xA54FF53A, 0x510E527F, 0x9B05688C, 0x1F83D9AB, 0x5BE0CD19]"

text \<open>
  Padding: a byte \<open>0x80\<close>, zero bytes up to 56 modulo 64, and the length of the message in
  bits as eight bytes, most significant first.
\<close>

definition be_bytes :: "nat \<Rightarrow> int \<Rightarrow> int list" where
  "be_bytes count n = map (\<lambda>i. (n div 256 ^ (count - 1 - i)) mod 256) [0..<count]"

definition sha_pad :: "int list \<Rightarrow> int list" where
  "sha_pad bs =
     (let l = length bs
      in bs @ [128] @ replicate ((119 - l mod 64) mod 64) 0 @ be_bytes 8 (8 * int l))"

fun be_words :: "int list \<Rightarrow> w32 list" where
  "be_words (a # b # c # d # bs) =
     of_int (((a * 256 + b) * 256 + c) * 256 + d) # be_words bs"
| "be_words _ = []"

fun chunks :: "nat \<Rightarrow> 'a list \<Rightarrow> 'a list list" where
  "chunks n [] = []"
| "chunks n (x # xs) =
     (if n = 0 then [] else take n (x # xs) # chunks n (drop n (x # xs)))"

text \<open>The message schedule: 48 words are added to the 16 words of the block.\<close>

primrec schedule :: "nat \<Rightarrow> w32 list \<Rightarrow> w32 list" where
  "schedule 0 w = w"
| "schedule (Suc n) w =
     schedule n
       (let t = length w
        in w @ [sigma1 (w ! (t - 2)) + w ! (t - 7) + sigma0 (w ! (t - 15)) + w ! (t - 16)])"

type_synonym sha_regs = "w32 \<times> w32 \<times> w32 \<times> w32 \<times> w32 \<times> w32 \<times> w32 \<times> w32"

definition sha_round :: "sha_regs \<Rightarrow> w32 \<times> w32 \<Rightarrow> sha_regs" where
  "sha_round regs kw =
     (case regs of (a, b, c, d, e, f, g, h) \<Rightarrow>
        let t1 = h + Sigma1 e + Ch e f g + fst kw + snd kw;
            t2 = Sigma0 a + Maj a b c
        in (t1 + t2, a, b, c, d + t1, e, f, g))"

definition compress :: "w32 list \<Rightarrow> w32 list \<Rightarrow> w32 list" where
  "compress hs block =
     (case hs of
        [h0, h1, h2, h3, h4, h5, h6, h7] \<Rightarrow>
          (case foldl sha_round (h0, h1, h2, h3, h4, h5, h6, h7) (zip sha_K (schedule 48 block)) of
             (a, b, c, d, e, f, g, h) \<Rightarrow>
               [h0 + a, h1 + b, h2 + c, h3 + d, h4 + e, h5 + f, h6 + g, h7 + h])
      | _ \<Rightarrow> hs)"

definition hex_word :: "w32 \<Rightarrow> string" where
  "hex_word w = map (\<lambda>i. hex_digit (nat ((uint w div 16 ^ (7 - i)) mod 16))) [0..<8]"

definition sha256_hexdigest :: "string \<Rightarrow> string" where
  "sha256_hexdigest s =
     concat (map hex_word
       (foldl compress sha_H0 (map be_words (chunks 64 (sha_pad (map of_char s))))))"

subsection \<open>\<^verbatim>\<open>_compute_hash\<close>\<close>

definition compute_hash :: "SOPStep list \<Rightarrow> string" where
  "compute_hash ss = sha256_hexdigest (json_dumps_steps ss)"

section \<open>Creating, validating and refining a SOP in the agent\<close>

subsection \<open>\<^verbatim>\<open>create_sop_from_operations\<close>\<close>

text \<open>
  An operation is a dictionary; a key the caller left out is \<open>None\<close> here and gets the
  default of the source's \<^verbatim>\<open>op.get\<close>. \<^verbatim>\<open>max_retries\<close> is not read from the
  operation: it is the default of the dataclass.
\<close>

record operation =
  op_name :: "string option"
  op_description :: "string option"
  op_command :: "string option"
  op_expected_output :: "string option"
  op_validation_check :: "string option"
  op_rollback_command :: "string option"
  op_timeout_seconds :: "int option"
  op_retry_on_failure :: "bool option"
  op_dependencies :: "int list option"
  op_tags :: "string list option"

definition get_or :: "'a option \<Rightarrow> 'a \<Rightarrow> 'a" where
  "get_or v d = (case v of None \<Rightarrow> d | Some x \<Rightarrow> x)"

definition step_of_operation :: "string \<Rightarrow> int \<Rightarrow> operation \<Rightarrow> SOPStep" where
  "step_of_operation cpt i op =
     \<lparr>step_number = i,
      SOPStep.name = get_or (op_name op) (''Step '' @ py_str i),
      SOPStep.description = get_or (op_description op) [],
      command = get_or (op_command op) [],
      SOPStep.component = cpt,
      expected_output = op_expected_output op,
      validation_check = op_validation_check op,
      rollback_command = op_rollback_command op,
      timeout_seconds = get_or (op_timeout_seconds op) 300,
      retry_on_failure = get_or (op_retry_on_failure op) True,
      max_retries = 3,
      dependencies = get_or (op_dependencies op) [],
      SOPStep.tags = get_or (op_tags op) []\<rparr>"

text \<open>\<^verbatim>\<open>enumerate(operations, 1)\<close>: the operations with their positions, counted from \<open>i\<close>.\<close>

fun steps_from :: "string \<Rightarrow> int \<Rightarrow> operation list \<Rightarrow> SOPStep list" where
  "steps_from cpt i [] = []"
| "steps_from cpt i (op # ops) = step_of_operation cpt i op # steps_from cpt (i + 1) ops"

definition create_sop_from_operations ::
  "string \<Rightarrow> AutoSOPAgent \<Rightarrow> string \<Rightarrow> string \<Rightarrow> string \<Rightarrow> string \<Rightarrow> string \<Rightarrow> operation list
     \<Rightarrow> string \<Rightarrow> (bool \<times> string) \<times> AutoSOPAgent"
where
  "create_sop_from_operations now agent sid nm descr cpt purp operations creator =
     (if sops agent sid \<noteq> None then ((False, ''SOP already exists: '' @ sid), agent)
      else
        let ss = steps_from cpt 1 operations;
            sop =
              \<lparr>SOPDefinition.sop_id = sid,
               SOPDefinition.name = nm,
               version = ''1.0.0'',
               SOPDefinition.status = DRAFT,
               SOPDefinition.description = descr,
               SOPDefinition.component = cpt,
               purpose = purp,
               created_date = now,
               last_modified = now,
               created_by = creator,
               last_modified_by = creator,
               steps = ss,
               prerequisites = [],
               SOPDefinition.tags = [cpt],
               validation_level = PERMISSIVE,
               execution_count = 0,
               success_count = 0,
               failure_count = 0,
               average_duration = 0,
               content_hash = compute_hash ss\<rparr>
        in ((True, ''SOP created: '' @ sid), agent\<lparr>sops := (sops agent)(sid \<mapsto> sop)\<rparr>))"

definition get_sop :: "AutoSOPAgent \<Rightarrow> string \<Rightarrow> SOPDefinition option" where
  "get_sop agent sid = sops agent sid"

subsection \<open>\<^verbatim>\<open>validate_sop\<close> and its four checks\<close>

text \<open>\<^verbatim>\<open>enumerate(sop.steps, 1)\<close> with the test \<^verbatim>\<open>step.step_number != i\<close>.\<close>

fun numbered_from :: "int \<Rightarrow> SOPStep list \<Rightarrow> bool" where
  "numbered_from i [] = True"
| "numbered_from i (s # ss) = (step_number s = i \<and> numbered_from (i + 1) ss)"

definition validate_structure :: "SOPDefinition \<Rightarrow> bool" where
  "validate_structure sop =
     (if SOPDefinition.sop_id sop = [] \<or> SOPDefinition.name sop = [] \<or> steps sop = [] then False
      else numbered_from 1 (steps sop))"

definition validate_syntax :: "SOPDefinition \<Rightarrow> bool" where
  "validate_syntax sop = list_all (\<lambda>s. command s \<noteq> [] \<and> SOPStep.name s \<noteq> []) (steps sop)"

definition validate_dependencies :: "SOPDefinition \<Rightarrow> bool" where
  "validate_dependencies sop =
     list_all
       (\<lambda>s. list_all
              (\<lambda>dep. List.member (map step_number (steps sop)) dep \<and> dep < step_number s)
              (dependencies s))
       (steps sop)"

definition validate_completeness :: "SOPDefinition \<Rightarrow> bool" where
  "validate_completeness sop = list_all (\<lambda>s. SOPStep.description s \<noteq> []) (steps sop)"

text \<open>
  \<^verbatim>\<open>validate_sop\<close> runs the four checks on the SOP as it is, then a dry run through
  \<^verbatim>\<open>execute_sop\<close> (which counts as an execution and is recorded), and sets the status to
  \<^verbatim>\<open>VALIDATED\<close> when all of it passed. The result is \<^verbatim>\<open>is_valid\<close>; the report dictionary
  is not modelled.
\<close>

definition validate_sop ::
  "exec_env \<Rightarrow> AutoSOPAgent \<Rightarrow> string \<Rightarrow> (py_error + bool) \<times> AutoSOPAgent"
where
  "validate_sop env agent sid =
     (case sops agent sid of
        None \<Rightarrow> (Inr False, agent)
      | Some sop \<Rightarrow>
          let all_checks_pass =
                (validate_structure sop \<and> validate_syntax sop
                 \<and> validate_dependencies sop \<and> validate_completeness sop)
          in (case execute_sop env agent sid True of
                (Inl e, agent1) \<Rightarrow> (Inl e, agent1)
              | (Inr (success, execution), agent1) \<Rightarrow>
                  let is_valid = (all_checks_pass \<and> success)
                  in if is_valid then
                       (Inr True,
                        agent1\<lparr>sops :=
                          (sops agent1)(sid \<mapsto> (the (sops agent1 sid))\<lparr>SOPDefinition.status := VALIDATED\<rparr>)\<rparr>)
                     else (Inr False, agent1)))"

subsection \<open>\<^verbatim>\<open>refine_sop\<close>\<close>

text \<open>
  One entry \<^verbatim>\<open>key: value\<close> of the changes of a step. \<^verbatim>\<open>hasattr(step, key)\<close> holds for
  the thirteen fields of a step, with which \<^verbatim>\<open>setattr\<close> then assigns the field; a key
  for which it does not hold (\<open>No_attribute\<close>) is passed over. Values have the type the
  dataclass declares for the field. Keys that name the special attributes of a Python
  object are outside the model.
\<close>

datatype change =
    Set_step_number int
  | Set_name string
  | Set_description string
  | Set_command string
  | Set_component string
  | Set_expected_output "string option"
  | Set_validation_check "string option"
  | Set_rollback_command "string option"
  | Set_timeout_seconds int
  | Set_retry_on_failure bool
  | Set_max_retries int
  | Set_dependencies "int list"
  | Set_tags "string list"
  | No_attribute string

fun set_attr :: "SOPStep \<Rightarrow> change \<Rightarrow> SOPStep" where
  "set_attr s (Set_step_number v) = s\<lparr>step_number := v\<rparr>"
| "set_attr s (Set_name v) = s\<lparr>SOPStep.name := v\<rparr>"
| "set_attr s (Set_description v) = s\<lparr>SOPStep.description := v\<rparr>"
| "set_attr s (Set_command v) = s\<lparr>command := v\<rparr>"
| "set_attr s (Set_component v) = s\<lparr>SOPStep.component := v\<rparr>"
| "set_attr s (Set_expected_output v) = s\<lparr>expected_output := v\<rparr>"
| "set_attr s (Set_validation_check v) = s\<lparr>validation_check := v\<rparr>"
| "set_attr s (Set_rollback_command v) = s\<lparr>rollback_command := v\<rparr>"
| "set_attr s (Set_timeout_seconds v) = s\<lparr>timeout_seconds := v\<rparr>"
| "set_attr s (Set_retry_on_failure v) = s\<lparr>retry_on_failure := v\<rparr>"
| "set_attr s (Set_max_retries v) = s\<lparr>max_retries := v\<rparr>"
| "set_attr s (Set_dependencies v) = s\<lparr>dependencies := v\<rparr>"
| "set_attr s (Set_tags v) = s\<lparr>SOPStep.tags := v\<rparr>"
| "set_attr s (No_attribute k) = s"

text \<open>
  \<^verbatim>\<open>next((s for s in sop.steps if s.step_number == step_num), None)\<close> and the changes made
  to the step found: the first step with that number is changed where it stands, and
  nothing is done when there is none.
\<close>

fun update_first :: "int \<Rightarrow> change list \<Rightarrow> SOPStep list \<Rightarrow> SOPStep list" where
  "update_first step_num changes [] = []"
| "update_first step_num changes (s # ss) =
     (if step_number s = step_num then foldl set_attr s changes # ss
      else s # update_first step_num changes ss)"

fun apply_updates :: "(int \<times> change list) list \<Rightarrow> SOPStep list \<Rightarrow> SOPStep list" where
  "apply_updates [] ss = ss"
| "apply_updates ((step_num, changes) # rest) ss =
     apply_updates rest (update_first step_num changes ss)"

text \<open>
  The version: \<^verbatim>\<open>split('.')\<close>, the third part read as an integer and incremented, and
  \<^verbatim>\<open>join\<close>. \<open>None\<close> is the \<^verbatim>\<open>IndexError\<close> of a version with fewer than three parts or the
  \<^verbatim>\<open>ValueError\<close> of a third part that is not a number.
\<close>

definition bump_version :: "string \<Rightarrow> string option" where
  "bump_version v =
     (let version_parts = split_on CHR ''.'' v
      in if length version_parts < 3 then None
         else (case py_int (version_parts ! 2) of
                 None \<Rightarrow> None
               | Some n \<Rightarrow> Some (join_with ''.'' (version_parts[2 := py_str (n + 1)]))))"

text \<open>
  \<^verbatim>\<open>refine_sop\<close> changes the steps of the stored SOP in place and only then computes the
  version, so an exception there (caught, and reported as failure) leaves the changed
  steps in the store with the old version, time stamp and hash. The text of the message
  of a failure, which quotes the exception, is not modelled.
\<close>

definition refine_sop ::
  "string \<Rightarrow> AutoSOPAgent \<Rightarrow> string \<Rightarrow> (int \<times> change list) list \<Rightarrow> string
     \<Rightarrow> (bool \<times> string) \<times> AutoSOPAgent"
where
  "refine_sop now agent sid updates refined_by =
     (case sops agent sid of
        None \<Rightarrow> ((False, ''SOP not found: '' @ sid), agent)
      | Some sop \<Rightarrow>
          let sop1 = sop\<lparr>steps := apply_updates updates (steps sop)\<rparr>
          in (case bump_version (version sop1) of
                None \<Rightarrow>
                  ((False, ''Failed to refine SOP''), agent\<lparr>sops := (sops agent)(sid \<mapsto> sop1)\<rparr>)
              | Some v \<Rightarrow>
                  let sop2 = sop1\<lparr>version := v,
                                  last_modified := now,
                                  last_modified_by := refined_by,
                                  content_hash := compute_hash (steps sop1)\<rparr>
                  in ((True, ''SOP refined to v'' @ v), agent\<lparr>sops := (sops agent)(sid \<mapsto> sop2)\<rparr>)))"

section \<open>The validator\<close>

text \<open>
  \<^verbatim>\<open>validate_sop_comprehensive\<close> takes the SOP as a dictionary, here the record of the
  SOP: a key that is absent from a dictionary corresponds to the empty value of the field
  (for \<^verbatim>\<open>timeout_seconds\<close> to 300), which is what the source's \<^verbatim>\<open>get\<close> makes of it. The
  optional \<^verbatim>\<open>execution_results\<close> is a dictionary of which \<^verbatim>\<open>status\<close> and
  \<^verbatim>\<open>failed_steps\<close> are read; \<open>None\<close> stands for \<^verbatim>\<open>None\<close> and for the empty dictionary.
\<close>

record execution_results =
  results_status :: string
  results_failed_steps :: "int list"

definition finding ::
  "string \<Rightarrow> string \<Rightarrow> string \<Rightarrow> string \<Rightarrow> int option \<Rightarrow> string \<Rightarrow> string \<Rightarrow> int
     \<Rightarrow> ValidationFinding"
where
  "finding fid sid ftype cat num msg rcm sev =
     \<lparr>finding_id = fid, ValidationFinding.sop_id = sid, finding_type = ftype, category = cat,
      ValidationFinding.step_number = num, message = msg, recommendation = rcm,
      severity = sev, fixed = False\<rparr>"

subsection \<open>\<^verbatim>\<open>_check_structure\<close>\<close>

definition missing_fields :: "SOPDefinition \<Rightarrow> string list" where
  "missing_fields d =
     map fst (filter (\<lambda>p. \<not> snd p)
       [(''sop_id'', SOPDefinition.sop_id d \<noteq> []),
        (''name'', SOPDefinition.name d \<noteq> []),
        (''version'', version d \<noteq> []),
        (''description'', SOPDefinition.description d \<noteq> []),
        (''component'', SOPDefinition.component d \<noteq> []),
        (''steps'', steps d \<noteq> [])])"

fun numbering_findings :: "string \<Rightarrow> int \<Rightarrow> SOPStep list \<Rightarrow> ValidationFinding list" where
  "numbering_findings sid i [] = []"
| "numbering_findings sid i (s # ss) =
     (if SOPStep.step_number s \<noteq> i then
        [finding (''STR_003_'' @ sid @ ''_step'' @ py_str i) sid ''error'' ''structure'' (Some i)
           (''Step numbering is incorrect at position '' @ py_str i)
           (''Renumber step to '' @ py_str i) 4]
      else [])
     @ numbering_findings sid (i + 1) ss"

definition check_structure :: "SOPDefinition \<Rightarrow> ValidationFinding list" where
  "check_structure d =
     (let sid = SOPDefinition.sop_id d
      in map (\<lambda>f. finding (''STR_001_'' @ sid) sid ''error'' ''structure'' None
                    (''Missing required field: '' @ f) (''Add '' @ f @ '' to SOP definition'') 5)
           (missing_fields d)
         @ (if steps d = [] then
              [finding (''STR_002_'' @ sid) sid ''error'' ''structure'' None ''SOP has no steps''
                 ''Add at least one step to the SOP'' 5]
            else [])
         @ numbering_findings sid 1 (steps d))"

subsection \<open>\<^verbatim>\<open>_check_syntax\<close>\<close>

definition syntax_findings :: "string \<Rightarrow> SOPStep \<Rightarrow> ValidationFinding list" where
  "syntax_findings sid s =
     (let step_num = SOPStep.step_number s
      in (if command s = [] then
            [finding (''SYN_001_'' @ sid @ ''_step'' @ py_str step_num) sid ''error'' ''syntax''
               (Some step_num) ''Step has no command'' ''Add a command to this step'' 5]
          else [])
         @ (if SOPStep.name s = [] then
              [finding (''SYN_002_'' @ sid @ ''_step'' @ py_str step_num) sid ''error'' ''syntax''
                 (Some step_num) ''Step has no name'' ''Add a descriptive name to this step'' 4]
            else [])
         @ (if SOPStep.description s = [] then
              [finding (''SYN_003_'' @ sid @ ''_step'' @ py_str step_num) sid ''warning'' ''syntax''
                 (Some step_num) ''Step has no description''
                 ''Add a description explaining what this step does'' 3]
            else []))"

definition check_syntax :: "SOPDefinition \<Rightarrow> ValidationFinding list" where
  "check_syntax d = concat (map (syntax_findings (SOPDefinition.sop_id d)) (steps d))"

subsection \<open>\<^verbatim>\<open>_check_logic\<close>\<close>

text \<open>
  Two tests are made for every dependency, each with a finding of its own: that the
  number is the number of a step, and that it is below the number of the step that
  names it.
\<close>

definition dep_findings :: "string \<Rightarrow> int list \<Rightarrow> int \<Rightarrow> int \<Rightarrow> ValidationFinding list" where
  "dep_findings sid step_numbers step_num dep =
     (if \<not> List.member step_numbers dep then
        [finding (''LOG_001_'' @ sid @ ''_step'' @ py_str step_num) sid ''error'' ''logic''
           (Some step_num) (''Dependency references non-existent step: '' @ py_str dep)
           (''Remove or fix reference to step '' @ py_str dep) 5]
      else [])
     @ (if dep \<ge> step_num then
          [finding (''LOG_002_'' @ sid @ ''_step'' @ py_str step_num) sid ''error'' ''logic''
             (Some step_num)
             (''Circular or forward dependency: step '' @ py_str step_num @ '' depends on step ''
                @ py_str dep)
             ''Reorder steps to remove circular dependencies'' 5]
        else [])"

definition logic_findings :: "string \<Rightarrow> int list \<Rightarrow> SOPStep \<Rightarrow> ValidationFinding list" where
  "logic_findings sid step_numbers s =
     concat (map (dep_findings sid step_numbers (SOPStep.step_number s)) (dependencies s))"

definition check_logic :: "SOPDefinition \<Rightarrow> ValidationFinding list" where
  "check_logic d =
     concat (map (logic_findings (SOPDefinition.sop_id d) (map SOPStep.step_number (steps d)))
       (steps d))"

subsection \<open>\<^verbatim>\<open>_check_efficiency\<close>\<close>

definition timeout_findings :: "string \<Rightarrow> SOPStep \<Rightarrow> ValidationFinding list" where
  "timeout_findings sid s =
     (if timeout_seconds s > 3600 then
        [finding (''EFF_003_'' @ sid @ ''_step'' @ py_str (SOPStep.step_number s)) sid
           ''suggestion'' ''efficiency'' (Some (SOPStep.step_number s))
           (''Step has very long timeout: '' @ py_str (timeout_seconds s) @ ''s'')
           ''Review if timeout can be reduced'' 1]
      else [])"

definition check_efficiency :: "SOPDefinition \<Rightarrow> ValidationFinding list" where
  "check_efficiency d =
     (let sid = SOPDefinition.sop_id d
      in (if length (steps d) > 50 then
            [finding (''EFF_001_'' @ sid) sid ''warning'' ''efficiency'' None
               (''SOP has '' @ py_str (int (length (steps d))) @ '' steps, which may be too many'')
               ''Consider breaking into smaller SOPs'' 2]
          else [])
         @ (if length (steps d) < 1 then
              [finding (''EFF_002_'' @ sid) sid ''info'' ''efficiency'' None
                 ''SOP has very few steps''
                 ''Consider if this is complex enough to warrant a SOP'' 1]
            else [])
         @ concat (map (timeout_findings sid) (steps d)))"

subsection \<open>\<^verbatim>\<open>_check_clarity\<close>\<close>

definition description_findings :: "string \<Rightarrow> SOPStep \<Rightarrow> ValidationFinding list" where
  "description_findings sid s =
     (if length (SOPStep.description s) < 10 then
        [finding (''CLR_003_'' @ sid @ ''_step'' @ py_str (SOPStep.step_number s)) sid
           ''suggestion'' ''clarity'' (Some (SOPStep.step_number s))
           ''Step description is too short''
           ''Provide more detail about what this step accomplishes'' 1]
      else [])"

definition check_clarity :: "SOPDefinition \<Rightarrow> ValidationFinding list" where
  "check_clarity d =
     (let sid = SOPDefinition.sop_id d
      in (if length (SOPDefinition.description d) < 20 then
            [finding (''CLR_001_'' @ sid) sid ''suggestion'' ''clarity'' None
               ''SOP description is too short''
               ''Provide a more detailed description of the SOP purpose'' 1]
          else [])
         @ (if prerequisites d = [] then
              [finding (''CLR_002_'' @ sid) sid ''suggestion'' ''clarity'' None
                 ''SOP has no prerequisites listed''
                 ''Add prerequisites section if applicable'' 1]
            else [])
         @ concat (map (description_findings sid) (steps d)))"

subsection \<open>\<^verbatim>\<open>_check_execution\<close>\<close>

definition check_execution :: "SOPDefinition \<Rightarrow> execution_results \<Rightarrow> ValidationFinding list" where
  "check_execution d r =
     (if results_status r = ''FAILED'' then
        map (\<lambda>step_num.
               finding (''EXE_001_'' @ SOPDefinition.sop_id d @ ''_step'' @ py_str step_num)
                 (SOPDefinition.sop_id d) ''error'' ''logic'' (Some step_num)
                 (''Step '' @ py_str step_num @ '' failed during execution'')
                 ''Review and fix the command in this step'' 5)
          (results_failed_steps r)
      else [])"

subsection \<open>The findings, the score and the report\<close>

definition all_findings :: "SOPDefinition \<Rightarrow> execution_results option \<Rightarrow> ValidationFinding list" where
  "all_findings d r =
     check_structure d @ check_syntax d @ check_logic d @ check_efficiency d @ check_clarity d
     @ (case r of None \<Rightarrow> [] | Some res \<Rightarrow> check_execution d res)"

definition count_type :: "string \<Rightarrow> ValidationFinding list \<Rightarrow> int" where
  "count_type t fs = int (length (filter (\<lambda>f. finding_type f = t) fs))"

text \<open>The body of the loop that deducts points, and the score after \<^verbatim>\<open>max(0, ...)\<close>.\<close>

definition deduct :: "rat \<Rightarrow> ValidationFinding \<Rightarrow> rat" where
  "deduct q f =
     (if finding_type f = ''error'' then q - of_int (severity f * 2)
      else if finding_type f = ''warning'' then q - of_int (severity f * 1)
      else if finding_type f = ''suggestion'' then q - 1 / 2
      else q)"

definition quality_score :: "ValidationFinding list \<Rightarrow> rat" where
  "quality_score fs = max 0 (foldl deduct 100 fs)"

definition generate_recommendations :: "ValidationFinding list \<Rightarrow> string list" where
  "generate_recommendations fs =
     (if count_type ''error'' fs \<noteq> 0
      then [''Fix '' @ py_str (count_type ''error'' fs) @ '' critical errors before using SOP'']
      else [])
     @ (if count_type ''warning'' fs \<noteq> 0
        then [''Review '' @ py_str (count_type ''warning'' fs) @ '' warnings for quality improvement'']
        else [])
     @ (if count_type ''suggestion'' fs \<noteq> 0
        then [''Consider '' @ py_str (count_type ''suggestion'' fs) @ '' suggestions for optimization'']
        else [])"

definition create_refinement_plan :: "ValidationFinding list \<Rightarrow> plan" where
  "create_refinement_plan fs =
     \<lparr>priority_fixes =
        map (\<lambda>f. (ValidationFinding.step_number f, message f, recommendation f))
          (filter (\<lambda>f. finding_type f = ''error'') fs),
      quality_improvements =
        map (\<lambda>f. (ValidationFinding.step_number f, category f, recommendation f))
          (filter (\<lambda>f. finding_type f \<noteq> ''error'') fs),
      timeline = ''immediate for errors, next iteration for suggestions''\<rparr>"

subsection \<open>\<^verbatim>\<open>validate_sop_comprehensive\<close>\<close>

text \<open>
  \<open>now_ts\<close> and \<open>now\<close> are the clock read as a time stamp and as a date. The function
  returns the report and appends it to the history of the validator. It runs no SOP.
\<close>

definition validate_sop_comprehensive ::
  "int \<Rightarrow> string \<Rightarrow> SOPValidator \<Rightarrow> SOPDefinition \<Rightarrow> execution_results option
     \<Rightarrow> ValidationReport \<times> SOPValidator"
where
  "validate_sop_comprehensive now_ts now validator d r =
     (let fs = all_findings d r;
          n_errors = count_type ''error'' fs;
          score = quality_score fs;
          report =
            \<lparr>validation_id = ''val_'' @ SOPDefinition.sop_id d @ ''_'' @ py_str now_ts,
             ValidationReport.sop_id = SOPDefinition.sop_id d,
             ValidationReport.sop_version = version d,
             validation_date = now,
             ValidationReport.validator_name = SOPValidator.validator_name validator,
             total_findings = int (length fs),
             errors = n_errors,
             warnings = count_type ''warning'' fs,
             infos = count_type ''info'' fs,
             suggestions = count_type ''suggestion'' fs,
             overall_quality_score = score,
             is_approved = (n_errors = 0 \<and> score \<ge> 80),
             findings = fs,
             recommendations = generate_recommendations fs,
             refinement_plan = create_refinement_plan fs\<rparr>
      in (report, validator\<lparr>validation_history := validation_history validator @ [report]\<rparr>))"

section \<open>Sequences of calls and the scenarios of the specification\<close>

text \<open>
  A sequence of calls of \<^verbatim>\<open>execute_sop\<close> on one agent, each with its own environment,
  id and mode. A call that raised leaves the agent as the exception found it.
\<close>

fun execute_all :: "AutoSOPAgent \<Rightarrow> (exec_env \<times> string \<times> bool) list \<Rightarrow> AutoSOPAgent" where
  "execute_all agent [] = agent"
| "execute_all agent ((env, sid, dry_run) # calls) =
     execute_all (snd (execute_sop env agent sid dry_run)) calls"

text \<open>
  The two steps of the scenarios: \<^verbatim>\<open>echo 1\<close>, and \<^verbatim>\<open>echo 2\<close> with the dependencies
  given. The other fields are those of the example at the end of
  \<^verbatim>\<open>sop_validator_refiner.py\<close> and the defaults of the dataclass.
\<close>

definition first_step :: SOPStep where
  "first_step =
     \<lparr>step_number = 1, SOPStep.name = ''Step 1'', SOPStep.description = ''First step'',
      command = ''echo 1'', SOPStep.component = ''test'', expected_output = None,
      validation_check = None, rollback_command = None, timeout_seconds = 300,
      retry_on_failure = True, max_retries = 3, dependencies = [], SOPStep.tags = []\<rparr>"

definition second_step :: "int list \<Rightarrow> SOPStep" where
  "second_step deps =
     \<lparr>step_number = 2, SOPStep.name = ''Step 2'', SOPStep.description = ''Second step'',
      command = ''echo 2'', SOPStep.component = ''test'', expected_output = None,
      validation_check = None, rollback_command = None, timeout_seconds = 300,
      retry_on_failure = True, max_retries = 3, dependencies = deps, SOPStep.tags = []\<rparr>"

definition test_sop :: "SOPStep list \<Rightarrow> string list \<Rightarrow> SOPDefinition" where
  "test_sop ss prereqs =
     \<lparr>SOPDefinition.sop_id = ''test_sop'', SOPDefinition.name = ''Test SOP'', version = ''1.0.0'',
      SOPDefinition.status = DRAFT, SOPDefinition.description = ''A test SOP for validation'',
      SOPDefinition.component = ''test'', purpose = ''testing'', created_date = ''2024-01-01'',
      last_modified = ''2024-01-01'', created_by = ''agent'', last_modified_by = ''agent'',
      steps = ss, prerequisites = prereqs, SOPDefinition.tags = [''test''],
      validation_level = PERMISSIVE, execution_count = 0, success_count = 0, failure_count = 0,
      average_duration = 0, content_hash = compute_hash ss\<rparr>"

definition test_agent :: "SOPDefinition \<Rightarrow> AutoSOPAgent" where
  "test_agent sop = \<lparr>sops = [''test_sop'' \<mapsto> sop], execution_history = []\<rparr>"

definition test_validator :: SOPValidator where
  "test_validator = \<lparr>SOPValidator.validator_name = ''test_validator'', validation_history = []\<rparr>"

text \<open>An environment in which every process ends with the given return code.\<close>

definition test_env :: "int \<Rightarrow> exec_env" where
  "test_env code =
     \<lparr>run = (\<lambda>k cmd t. Completed code ''out'' ''err''), now_iso = ''2024-01-01T00:00:00'',
      now_timestamp = 1704067200, end_iso = ''2024-01-01T00:00:01'', elapsed = 1\<rparr>"

text \<open>A record of a finished execution of the SOP \<open>sid\<close>, told apart by its id.\<close>

definition test_execution :: "string \<Rightarrow> string \<Rightarrow> SOPExecution" where
  "test_execution eid sid =
     \<lparr>execution_id = eid, SOPExecution.sop_id = sid, sop_version = ''1.0.0'',
      start_time = ''2024-01-01T00:00:00'', end_time = Some ''2024-01-01T00:00:01'',
      duration_seconds = 1, SOPExecution.status = COMPLETED, steps_completed = 0,
      steps_total = 0, success_rate = 0, failed_steps = [], execution_output = Map.empty,
      error = None\<rparr>"

definition test_history :: AutoSOPAgent where
  "test_history =
     \<lparr>sops = Map.empty,
      execution_history =
        [test_execution ''e1'' ''a'', test_execution ''e2'' ''b'', test_execution ''e3'' ''a'',
         test_execution ''e4'' ''a'']\<rparr>"

text \<open>A history in which one record belongs to a SOP whose id is the empty string.\<close>

definition test_history_unnamed :: AutoSOPAgent where
  "test_history_unnamed =
     \<lparr>sops = Map.empty,
      execution_history =
        [test_execution ''x1'' [], test_execution ''x2'' ''b'', test_execution ''x3'' ''b'']\<rparr>"

text \<open>The report of the test validator on a SOP, at a fixed time.\<close>

definition test_report :: "SOPDefinition \<Rightarrow> execution_results option \<Rightarrow> ValidationReport" where
  "test_report d r =
     fst (validate_sop_comprehensive 1704067200 ''2024-01-01T00:00:00'' test_validator d r)"

section \<open>The states that the interface reaches\<close>

text \<open>
  A call of one of the four operations that change the agent, with the values it reads
  from its environment, and the state after a sequence of such calls on an agent that
  found no SOP to load.
\<close>

datatype api_call =
    Create string string string string string string "operation list" string
  | Execute exec_env string bool
  | Validate exec_env string
  | Refine string string "(int \<times> change list) list" string

fun api_step :: "AutoSOPAgent \<Rightarrow> api_call \<Rightarrow> AutoSOPAgent" where
  "api_step agent (Create now sid nm descr cpt purp ops creator) =
     snd (create_sop_from_operations now agent sid nm descr cpt purp ops creator)"
| "api_step agent (Execute env sid dry_run) = snd (execute_sop env agent sid dry_run)"
| "api_step agent (Validate env sid) = snd (validate_sop env agent sid)"
| "api_step agent (Refine now sid updates refined_by) =
     snd (refine_sop now agent sid updates refined_by)"

definition new_agent :: AutoSOPAgent where
  "new_agent = \<lparr>sops = Map.empty, execution_history = []\<rparr>"

definition api_run :: "api_call list \<Rightarrow> AutoSOPAgent" where
  "api_run calls = foldl api_step new_agent calls"

text \<open>The first operation of the example at the end of \<^verbatim>\<open>auto_sop_agent.py\<close>.\<close>

definition test_operation :: operation where
  "test_operation =
     \<lparr>op_name = Some ''Check git status'', op_description = Some ''Verify repository is clean'',
      op_command = Some ''git status --porcelain'', op_expected_output = Some [],
      op_validation_check = None, op_rollback_command = None, op_timeout_seconds = None,
      op_retry_on_failure = None, op_dependencies = None, op_tags = None\<rparr>"

definition test_calls :: "api_call list" where
  "test_calls =
     [Create ''2024-01-01'' ''git_commit_workflow'' ''Git Commit Workflow''
        ''Standard git commit workflow'' ''git'' ''Automate common git operations''
        [test_operation] ''agent'',
      Refine ''2024-01-02'' ''git_commit_workflow'' [(1, [Set_command ''git status'']), (4, [])]
        ''validator'']"

section \<open>Reading an attribute of a step by its name\<close>

text \<open>
  The value of \<^verbatim>\<open>getattr(step, key)\<close> for the thirteen fields of a step, and \<open>None\<close> for
  any other key; \<open>key_of\<close> is the key of an entry of the changes. They serve to say which
  attributes \<^verbatim>\<open>refine_sop\<close> leaves alone.
\<close>

datatype py_value =
    Int_value int
  | Str_value string
  | Opt_value "string option"
  | Bool_value bool
  | Ints_value "int list"
  | Strs_value "string list"

definition getattr :: "SOPStep \<Rightarrow> string \<Rightarrow> py_value option" where
  "getattr s k =
     (if k = ''step_number'' then Some (Int_value (step_number s))
      else if k = ''name'' then Some (Str_value (SOPStep.name s))
      else if k = ''description'' then Some (Str_value (SOPStep.description s))
      else if k = ''command'' then Some (Str_value (command s))
      else if k = ''component'' then Some (Str_value (SOPStep.component s))
      else if k = ''expected_output'' then Some (Opt_value (expected_output s))
      else if k = ''validation_check'' then Some (Opt_value (validation_check s))
      else if k = ''rollback_command'' then Some (Opt_value (rollback_command s))
      else if k = ''timeout_seconds'' then Some (Int_value (timeout_seconds s))
      else if k = ''retry_on_failure'' then Some (Bool_value (retry_on_failure s))
      else if k = ''max_retries'' then Some (Int_value (max_retries s))
      else if k = ''dependencies'' then Some (Ints_value (dependencies s))
      else if k = ''tags'' then Some (Strs_value (SOPStep.tags s))
      else None)"

fun key_of :: "change \<Rightarrow> string" where
  "key_of (Set_step_number v) = ''step_number''"
| "key_of (Set_name v) = ''name''"
| "key_of (Set_description v) = ''description''"
| "key_of (Set_command v) = ''command''"
| "key_of (Set_component v) = ''component''"
| "key_of (Set_expected_output v) = ''expected_output''"
| "key_of (Set_validation_check v) = ''validation_check''"
| "key_of (Set_rollback_command v) = ''rollback_command''"
| "key_of (Set_timeout_seconds v) = ''timeout_seconds''"
| "key_of (Set_retry_on_failure v) = ''retry_on_failure''"
| "key_of (Set_max_retries v) = ''max_retries''"
| "key_of (Set_dependencies v) = ''dependencies''"
| "key_of (Set_tags v) = ''tags''"
| "key_of (No_attribute k) = k"

text \<open>The value that an entry of the changes assigns.\<close>

fun value_of :: "change \<Rightarrow> py_value option" where
  "value_of (Set_step_number v) = Some (Int_value v)"
| "value_of (Set_name v) = Some (Str_value v)"
| "value_of (Set_description v) = Some (Str_value v)"
| "value_of (Set_command v) = Some (Str_value v)"
| "value_of (Set_component v) = Some (Str_value v)"
| "value_of (Set_expected_output v) = Some (Opt_value v)"
| "value_of (Set_validation_check v) = Some (Opt_value v)"
| "value_of (Set_rollback_command v) = Some (Opt_value v)"
| "value_of (Set_timeout_seconds v) = Some (Int_value v)"
| "value_of (Set_retry_on_failure v) = Some (Bool_value v)"
| "value_of (Set_max_retries v) = Some (Int_value v)"
| "value_of (Set_dependencies v) = Some (Ints_value v)"
| "value_of (Set_tags v) = Some (Strs_value v)"
| "value_of (No_attribute k) = None"

text \<open>The keys of all entries of an \<^verbatim>\<open>updates\<close> dictionary.\<close>

definition keys_changed :: "(int \<times> change list) list \<Rightarrow> string set" where
  "keys_changed updates = key_of ` set (concat (map snd updates))"

section \<open>The weight of a finding in the score\<close>

text \<open>What the loop over the findings deducts for one finding.\<close>

definition weight :: "ValidationFinding \<Rightarrow> rat" where
  "weight f =
     (if finding_type f = ''error'' then of_int (severity f * 2)
      else if finding_type f = ''warning'' then of_int (severity f * 1)
      else if finding_type f = ''suggestion'' then 1 / 2
      else 0)"

chapter \<open>Properties\<close>

section \<open>Facts about the built-ins\<close>

lemma nat_digits_small [simp]: "n < 10 \<Longrightarrow> nat_digits n = [char_of (48 + n)]"
  by (simp add: nat_digits.simps)

lemma py_slice_from_neg:
  "1 \<le> limit \<Longrightarrow>
     py_slice_from (- limit) xs = drop (length xs - nat (min limit (int (length xs)))) xs"
  by (auto simp: py_slice_from_def Let_def min_def max_def intro!: arg_cong2 [where f = drop])

lemma py_slice_from_zero: "py_slice_from 0 xs = xs"
  by (simp add: py_slice_from_def)

section \<open>The execution history\<close>

lemma history_selected:
  "get_execution_history agent sid limit =
     py_slice_from (- limit)
       (if sid = None \<or> sid = Some [] then execution_history agent
        else records_of (the sid) (execution_history agent))"
  by (cases sid) (auto simp: get_execution_history_def truthy_def)

text \<open>
  Claim C10, as the code has it. The records selected are those of the SOP \<^verbatim>\<open>sop_id\<close>
  when \<^verbatim>\<open>sop_id\<close> is a non-empty string; when it is \<^verbatim>\<open>None\<close> or the empty string the
  test \<^verbatim>\<open>if sop_id:\<close> fails, no filter is applied and the records of all SOPs are
  selected. For every \<^verbatim>\<open>sop_id\<close> and every limit of at least 1, the result is the last
  \<open>min limit n\<close> of the \<open>n\<close> selected records, in the order in which they were recorded;
  for the limit 0 it is all of them, not none, because \<^verbatim>\<open>history[-0:]\<close> is the whole
  list.
\<close>

theorem history_limit:
  "let selected =
         (if sid = None \<or> sid = Some [] then execution_history agent
          else records_of (the sid) (execution_history agent))
   in (1 \<le> limit \<longrightarrow>
         get_execution_history agent sid limit =
           drop (length selected - nat (min limit (int (length selected)))) selected
         \<and> int (length (get_execution_history agent sid limit)) =
             min limit (int (length selected)))
      \<and> get_execution_history agent sid 0 = selected"
proof -
  let ?m = "if sid = None \<or> sid = Some [] then execution_history agent
            else records_of (the sid) (execution_history agent)"
  have all: "get_execution_history agent sid 0 = ?m"
    by (simp only: history_selected [of agent sid 0] minus_zero py_slice_from_zero)
  have last: "get_execution_history agent sid limit =
      drop (length ?m - nat (min limit (int (length ?m)))) ?m" if "1 \<le> limit"
    using that by (simp only: history_selected [of agent sid limit] py_slice_from_neg)
  have len: "int (length (get_execution_history agent sid limit)) =
      min limit (int (length ?m))" if "1 \<le> limit"
    unfolding last [OF that] using that by (simp add: min_def)
  from all last len show ?thesis
    unfolding Let_def by blast
qed

theorem history_limit_witness:
  "get_execution_history test_history (Some ''a'') 2 =
       [test_execution ''e3'' ''a'', test_execution ''e4'' ''a'']
   \<and> int (length (get_execution_history test_history (Some ''a'') 2)) = 2
   \<and> get_execution_history test_history (Some ''a'') 0 =
       [test_execution ''e1'' ''a'', test_execution ''e3'' ''a'', test_execution ''e4'' ''a'']
   \<and> get_execution_history test_history None 1 = [test_execution ''e4'' ''a'']"
  using history_limit [of "Some ''a''" test_history 2] history_limit [of None test_history 1]
  by (simp add: records_of_def test_history_def test_execution_def Let_def)

text \<open>
  The claim as it was stated fails for the empty \<^verbatim>\<open>sop_id\<close>: of three records one
  belongs to the SOP with the empty id, and all three are returned.
\<close>

theorem history_of_empty_id:
  "get_execution_history test_history_unnamed (Some []) 5 =
       [test_execution ''x1'' [], test_execution ''x2'' ''b'', test_execution ''x3'' ''b'']
   \<and> records_of [] (execution_history test_history_unnamed) = [test_execution ''x1'' []]"
  by (simp add: get_execution_history_def truthy_def py_slice_from_def records_of_def
      test_history_unnamed_def test_execution_def)

section \<open>The loop of \<^verbatim>\<open>execute_sop\<close>\<close>

lemma step_loop_first_fails:
  assumes "dependencies s1 = []"
    and "execute_step world k s1 dry = ((False, out), k')"
    and "\<not> retry_on_failure s1"
  shows "step_loop world dry (s1 # rest) (e, failed, outs, k) =
           (e, failed @ [step_number s1], outs(step_number s1 \<mapsto> out), k')"
  using assms by simp

text \<open>
  Claim C6 (scenario C). A SOP of two steps is executed, the command of the first step is
  run (the step names no dependency) and fails, and \<^verbatim>\<open>retry_on_failure\<close> of that step is
  unset. Then the loop stops there: the record returned has \<^verbatim>\<open>steps_completed = 0\<close>,
  \<^verbatim>\<open>steps_total = 2\<close>, status \<^verbatim>\<open>FAILED\<close> and \<^verbatim>\<open>success_rate = 0.0\<close>; only the first step
  is among the failed steps and the outputs, and no process has been started beyond those
  of the first step (the last conjunct: the count of processes after the loop is the count
  \<open>k\<close> after the first step). The precondition on \<^verbatim>\<open>execution_count\<close> excludes the division
  by zero of the average.
\<close>

theorem stop_on_first_failure:
  assumes "sops agent sid = Some sop"
    and "steps sop = [s1, s2]"
    and "dependencies s1 = []"
    and "execute_step (run env) 0 s1 False = ((False, out), k)"
    and "\<not> retry_on_failure s1"
    and "execution_count sop \<noteq> - 1"
  shows "\<exists>e. fst (execute_sop env agent sid False) = Inr (False, Some e)
           \<and> steps_completed e = 0 \<and> steps_total e = 2
           \<and> SOPExecution.status e = FAILED \<and> success_rate e = 0
           \<and> failed_steps e = [step_number s1]
           \<and> execution_output e = [step_number s1 \<mapsto> out]
           \<and> step_loop (run env) False (steps sop) (new_execution env sid sop, [], Map.empty, 0)
               = (new_execution env sid sop, [step_number s1], [step_number s1 \<mapsto> out], k)"
proof -
  let ?init = "new_execution env sid sop"
  have loop: "step_loop (run env) False [s1, s2] (?init, [], Map.empty, 0)
      = (?init, [step_number s1], [step_number s1 \<mapsto> out], k)"
    using assms(3-5) by (simp add: step_loop_first_fails)
  let ?e = "run_steps env sid sop False"
  have run: "?e = finish_execution env (?init, [step_number s1], [step_number s1 \<mapsto> out], k)"
    unfolding run_steps_def assms(2) loop ..
  have e: "steps_completed ?e = 0" "steps_total ?e = 2" "SOPExecution.status ?e = FAILED"
    "success_rate ?e = 0" "failed_steps ?e = [step_number s1]"
    "execution_output ?e = [step_number s1 \<mapsto> out]"
    unfolding run by (simp_all add: finish_execution_def new_execution_def assms(2))
  have "fst (execute_sop env agent sid False) = Inr (False, Some ?e)"
    using assms(1,6) e(3) by (simp add: execute_sop_def Let_def count_execution_def)
  with e loop assms(2) show ?thesis by auto
qed

theorem stop_on_first_failure_witness:
  "sops (test_agent (test_sop [first_step\<lparr>retry_on_failure := False\<rparr>, second_step []] []))
       ''test_sop''
     = Some (test_sop [first_step\<lparr>retry_on_failure := False\<rparr>, second_step []] [])
   \<and> execute_step (run (test_env 1)) 0 (first_step\<lparr>retry_on_failure := False\<rparr>) False
       = ((False, ''Command failed: err''), 1)
   \<and> (\<exists>e. fst (execute_sop (test_env 1)
                (test_agent (test_sop [first_step\<lparr>retry_on_failure := False\<rparr>, second_step []] []))
                ''test_sop'' False) = Inr (False, Some e)
          \<and> steps_completed e = 0 \<and> steps_total e = 2
          \<and> SOPExecution.status e = FAILED \<and> success_rate e = 0
          \<and> failed_steps e = [1]
          \<and> execution_output e = [1 \<mapsto> ''Command failed: err''])"
proof -
  let ?s1 = "first_step\<lparr>retry_on_failure := False\<rparr>"
  let ?sop = "test_sop [?s1, second_step []] []"
  have a: "sops (test_agent ?sop) ''test_sop'' = Some ?sop"
    by (simp add: test_agent_def)
  have b: "steps ?sop = [?s1, second_step []]"
    by (simp add: test_sop_def)
  have c: "dependencies ?s1 = []" "\<not> retry_on_failure ?s1" "step_number ?s1 = 1"
    by (simp_all add: first_step_def)
  have d: "execute_step (run (test_env 1)) 0 ?s1 False = ((False, ''Command failed: err''), 1)"
    by (simp add: execute_step_def test_env_def first_step_def truthy_def)
  have f: "execution_count ?sop \<noteq> - 1"
    by (simp add: test_sop_def)
  from stop_on_first_failure [OF a b c(1) d c(2) f] a d c(3) show ?thesis
    by auto
qed

text \<open>
  Claim C1. The claim is that a step is failed without being run exactly when one of its
  dependencies produced no output earlier in the same execution. The loop tests the
  dependencies against \<^verbatim>\<open>execution.output\<close>, which is empty until the loop has ended
  (the outputs go to \<^verbatim>\<open>step_outputs\<close>), so a step that names any dependency is failed
  even when that dependency has just succeeded. In the dry run of the two steps
  \<^verbatim>\<open>echo 1\<close> and \<^verbatim>\<open>echo 2\<close> with \<^verbatim>\<open>dependencies = [1]\<close>, step 1 succeeds and has its
  output recorded, and step 2 is failed and never run.
\<close>

theorem dependency_on_finished_step_fails:
  "failed_steps (run_steps (test_env 0) ''test_sop''
       (test_sop [first_step, second_step [1]] [''git'']) True) = [2]
   \<and> steps_completed (run_steps (test_env 0) ''test_sop''
       (test_sop [first_step, second_step [1]] [''git'']) True) = 1
   \<and> SOPExecution.status (run_steps (test_env 0) ''test_sop''
       (test_sop [first_step, second_step [1]] [''git'']) True) = FAILED
   \<and> execution_output (run_steps (test_env 0) ''test_sop''
       (test_sop [first_step, second_step [1]] [''git'']) True) 1 = Some ''[DRY RUN] echo 1''
   \<and> execution_output (run_steps (test_env 0) ''test_sop''
       (test_sop [first_step, second_step [1]] [''git'']) True) 2 = None"
  by (simp add: run_steps_def test_sop_def first_step_def second_step_def finish_execution_def
      new_execution_def execute_step_def deps_met_def)

section \<open>The counters of a SOP\<close>

lemma execute_sop_counts:
  assumes "sops a sid = Some s"
  shows "\<exists>s'. sops (snd (execute_sop env a sid dry)) sid = Some s'
           \<and> execution_count s' = execution_count s + 1
           \<and> ((success_count s' = success_count s + 1 \<and> failure_count s' = failure_count s)
              \<or> (success_count s' = success_count s \<and> failure_count s' = failure_count s + 1))"
  using assms by (simp add: execute_sop_def Let_def count_execution_def)

lemma execute_sop_other:
  "sid' \<noteq> sid \<Longrightarrow> sops (snd (execute_sop env a sid' dry)) sid = sops a sid"
  by (simp add: execute_sop_def Let_def split: option.splits)

lemma execute_all_counts:
  assumes "sops a sid = Some s"
    and "success_count s + failure_count s = execution_count s"
  shows "\<exists>s'. sops (execute_all a calls) sid = Some s'
           \<and> success_count s' + failure_count s' = execution_count s'
           \<and> execution_count s' =
               execution_count s + int (length (filter (\<lambda>c. fst (snd c) = sid) calls))"
  using assms
proof (induction calls arbitrary: a s)
  case Nil
  then show ?case by simp
next
  case (Cons c calls)
  obtain env sid' dry where c: "c = (env, sid', dry)" by (cases c)
  show ?case
  proof (cases "sid' = sid")
    case True
    from execute_sop_counts [OF Cons.prems(1), of env dry] obtain s1 where
      s1: "sops (snd (execute_sop env a sid dry)) sid = Some s1"
        "execution_count s1 = execution_count s + 1"
        "(success_count s1 = success_count s + 1 \<and> failure_count s1 = failure_count s)
          \<or> (success_count s1 = success_count s \<and> failure_count s1 = failure_count s + 1)"
      by blast
    have inv: "success_count s1 + failure_count s1 = execution_count s1"
      using s1(2,3) Cons.prems(2) by auto
    from Cons.IH [OF s1(1) inv] s1(2) show ?thesis
      by (auto simp: c True)
  next
    case False
    have "sops (snd (execute_sop env a sid' dry)) sid = Some s"
      using False Cons.prems(1) by (simp add: execute_sop_other)
    from Cons.IH [OF this Cons.prems(2)] show ?thesis
      by (auto simp: c False)
  qed
qed

text \<open>
  Claim C7. A SOP is in the store with its three counters at zero, as
  \<^verbatim>\<open>create_sop_from_operations\<close> leaves them. After any sequence of calls of
  \<^verbatim>\<open>execute_sop\<close> (on this or any other id, dry or not, in any environment) it is still
  in the store, \<^verbatim>\<open>success_count + failure_count = execution_count\<close> holds, and
  \<^verbatim>\<open>execution_count\<close> is the number of calls made on its id. Each single call on the id
  of a stored SOP adds 1 to \<^verbatim>\<open>execution_count\<close> and 1 to exactly one of \<^verbatim>\<open>success_count\<close>
  and \<^verbatim>\<open>failure_count\<close>.
\<close>

theorem counters_consistent:
  assumes "sops agent sid = Some sop"
    and "execution_count sop = 0" and "success_count sop = 0" and "failure_count sop = 0"
  shows "(\<exists>sop'. sops (execute_all agent calls) sid = Some sop'
            \<and> success_count sop' + failure_count sop' = execution_count sop'
            \<and> execution_count sop' = int (length (filter (\<lambda>c. fst (snd c) = sid) calls)))
       \<and> (\<forall>env a s dry. sops a sid = Some s \<longrightarrow>
            (\<exists>s'. sops (snd (execute_sop env a sid dry)) sid = Some s'
               \<and> execution_count s' = execution_count s + 1
               \<and> ((success_count s' = success_count s + 1 \<and> failure_count s' = failure_count s)
                  \<or> (success_count s' = success_count s
                      \<and> failure_count s' = failure_count s + 1))))"
proof -
  have "success_count sop + failure_count sop = execution_count sop"
    using assms(2-4) by simp
  from execute_all_counts [OF assms(1) this, of calls] assms(2)
  have "\<exists>sop'. sops (execute_all agent calls) sid = Some sop'
            \<and> success_count sop' + failure_count sop' = execution_count sop'
            \<and> execution_count sop' = int (length (filter (\<lambda>c. fst (snd c) = sid) calls))"
    by simp
  then show ?thesis using execute_sop_counts by blast
qed

theorem counters_consistent_witness:
  "sops (test_agent (test_sop [first_step, second_step [1]] [])) ''test_sop''
     = Some (test_sop [first_step, second_step [1]] [])
   \<and> execution_count (test_sop [first_step, second_step [1]] []) = 0
   \<and> success_count (test_sop [first_step, second_step [1]] []) = 0
   \<and> failure_count (test_sop [first_step, second_step [1]] []) = 0
   \<and> (\<exists>sop'. sops (execute_all (test_agent (test_sop [first_step, second_step [1]] []))
                 [(test_env 0, ''test_sop'', True), (test_env 1, ''test_sop'', False),
                  (test_env 0, ''other'', False)]) ''test_sop'' = Some sop'
          \<and> success_count sop' + failure_count sop' = execution_count sop'
          \<and> execution_count sop' = 2)"
proof -
  let ?sop = "test_sop [first_step, second_step [1]] []"
  let ?calls = "[(test_env 0, ''test_sop'', True), (test_env 1, ''test_sop'', False),
                 (test_env 0, ''other'', False)]"
  have a: "sops (test_agent ?sop) ''test_sop'' = Some ?sop"
    by (simp add: test_agent_def)
  have z: "execution_count ?sop = 0" "success_count ?sop = 0" "failure_count ?sop = 0"
    by (simp_all add: test_sop_def)
  have n: "int (length (filter (\<lambda>c. fst (snd c) = ''test_sop'') ?calls)) = 2"
    by simp
  from counters_consistent [OF a z, of ?calls, THEN conjunct1] n a z show ?thesis
    by simp
qed

section \<open>Refining a SOP\<close>

lemma getattr_set_attr: "k \<noteq> key_of c \<Longrightarrow> getattr (set_attr s c) k = getattr s k"
  by (cases c) (auto simp: getattr_def)

lemma getattr_foldl:
  "k \<notin> key_of ` set cs \<Longrightarrow> getattr (foldl set_attr s cs) k = getattr s k"
  by (induction cs arbitrary: s) (simp_all add: getattr_set_attr)

lemma length_update_first [simp]: "length (update_first n cs ss) = length ss"
  by (induction ss) simp_all

lemma length_apply_updates [simp]: "length (apply_updates us ss) = length ss"
  by (induction us ss rule: apply_updates.induct) simp_all

lemma getattr_update_first:
  "k \<notin> key_of ` set cs \<Longrightarrow>
     map (\<lambda>s. getattr s k) (update_first n cs ss) = map (\<lambda>s. getattr s k) ss"
  by (induction ss) (simp_all add: getattr_foldl)

lemma getattr_apply_updates:
  "k \<notin> keys_changed us \<Longrightarrow>
     map (\<lambda>s. getattr s k) (apply_updates us ss) = map (\<lambda>s. getattr s k) ss"
proof (induction us ss rule: apply_updates.induct)
  case (1 ss)
  then show ?case by simp
next
  case (2 n cs rest ss)
  then have "k \<notin> key_of ` set cs" "k \<notin> keys_changed rest"
    by (auto simp: keys_changed_def)
  with 2 show ?case by (simp add: getattr_update_first)
qed

lemma update_first_other:
  "i < length ss \<Longrightarrow> step_number (ss ! i) \<noteq> n \<Longrightarrow> update_first n cs ss ! i = ss ! i"
proof (induction ss arbitrary: i)
  case Nil
  then show ?case by simp
next
  case (Cons s ss)
  then show ?case by (cases i) auto
qed

lemma apply_updates_other:
  "i < length ss \<Longrightarrow> step_number (ss ! i) \<notin> fst ` set us \<Longrightarrow> apply_updates us ss ! i = ss ! i"
proof (induction us ss rule: apply_updates.induct)
  case (1 ss)
  then show ?case by simp
next
  case (2 n cs rest ss)
  then have ne: "step_number (ss ! i) \<noteq> n" and rest: "step_number (ss ! i) \<notin> fst ` set rest"
    by auto
  have same: "update_first n cs ss ! i = ss ! i"
    using "2.prems"(1) ne by (rule update_first_other)
  have "apply_updates rest (update_first n cs ss) ! i = update_first n cs ss ! i"
    using "2.prems"(1) rest same by (intro "2.IH") simp_all
  with same show ?case by simp
qed

lemma update_first_unknown:
  "n \<notin> step_number ` set ss \<Longrightarrow> update_first n cs ss = ss"
  by (induction ss) auto

lemma apply_updates_append:
  "apply_updates (us @ vs) ss = apply_updates vs (apply_updates us ss)"
  by (induction us ss rule: apply_updates.induct) simp_all

lemma apply_updates_unknown:
  "n \<notin> step_number ` set (apply_updates pre ss) \<Longrightarrow>
     apply_updates (pre @ (n, cs) # post) ss = apply_updates (pre @ post) ss"
  by (simp add: apply_updates_append update_first_unknown)

lemma digit_chars [simp]:
  "char_of (48::nat) = CHR ''0''" "char_of (49::nat) = CHR ''1''" "char_of (50::nat) = CHR ''2''"
  "char_of (51::nat) = CHR ''3''" "char_of (52::nat) = CHR ''4''" "char_of (53::nat) = CHR ''5''"
  "char_of (54::nat) = CHR ''6''" "char_of (55::nat) = CHR ''7''" "char_of (56::nat) = CHR ''8''"
  "char_of (57::nat) = CHR ''9''"
  by code_simp+

lemma bump_version_first: "bump_version ''1.0.0'' = Some ''1.0.1''"
  by (simp add: bump_version_def py_int_def py_strip_def py_isspace_def is_digit_def
      digit_val_def py_str_def Let_def nat_digits.simps)

lemma refine_sop_result_steps:
  "sops agent sid = Some sop \<Longrightarrow>
     \<exists>sop'. sops (snd (refine_sop now agent sid updates who)) sid = Some sop'
       \<and> steps sop' = apply_updates updates (steps sop)"
  by (cases "bump_version (version sop)") (simp_all add: refine_sop_def Let_def)

lemma version_test_sop [simp]: "version (test_sop ss ps) = ''1.0.0''"
  by (simp add: test_sop_def)

lemma steps_test_sop [simp]: "steps (test_sop ss ps) = ss"
  by (simp add: test_sop_def)

lemma sops_test_agent [simp]: "sops (test_agent sop) ''test_sop'' = Some sop"
  by (simp add: test_agent_def)

text \<open>
  Claim C4, as the code has it. An entry of \<^verbatim>\<open>updates\<close> whose key is not the number of a
  step (of the steps as the entries before it have left them) is passed over without a
  word: \<^verbatim>\<open>refine_sop\<close> does exactly what it does without that entry, and whenever the
  version can be incremented it reports success. There is no failure result for an unknown
  step number.
\<close>

theorem unknown_step_is_skipped:
  assumes "sops agent sid = Some sop"
    and "n \<notin> step_number ` set (apply_updates pre (steps sop))"
  shows "refine_sop now agent sid (pre @ (n, cs) # post) who
           = refine_sop now agent sid (pre @ post) who
       \<and> (\<forall>v. bump_version (version sop) = Some v \<longrightarrow>
            fst (refine_sop now agent sid (pre @ (n, cs) # post) who)
              = (True, ''SOP refined to v'' @ v))"
proof -
  have "apply_updates (pre @ (n, cs) # post) (steps sop) = apply_updates (pre @ post) (steps sop)"
    using assms(2) by (rule apply_updates_unknown)
  then have same: "refine_sop now agent sid (pre @ (n, cs) # post) who
      = refine_sop now agent sid (pre @ post) who"
    using assms(1) by (simp add: refine_sop_def)
  have "fst (refine_sop now agent sid (pre @ (n, cs) # post) who) = (True, ''SOP refined to v'' @ v)"
    if "bump_version (version sop) = Some v" for v
    using assms(1) that by (simp add: refine_sop_def Let_def)
  with same show ?thesis by blast
qed

theorem unknown_step_is_skipped_witness:
  "sops (test_agent (test_sop [first_step, second_step [1]] [])) ''test_sop''
     = Some (test_sop [first_step, second_step [1]] [])
   \<and> 5 \<notin> step_number ` set (apply_updates [] (steps (test_sop [first_step, second_step [1]] [])))
   \<and> refine_sop ''2024-01-02'' (test_agent (test_sop [first_step, second_step [1]] []))
        ''test_sop'' [(5, [Set_command ''echo 5''])] ''validator''
      = refine_sop ''2024-01-02'' (test_agent (test_sop [first_step, second_step [1]] []))
        ''test_sop'' [] ''validator''"
proof -
  let ?sop = "test_sop [first_step, second_step [1]] []"
  have a: "sops (test_agent ?sop) ''test_sop'' = Some ?sop"
    by simp
  have b: "5 \<notin> step_number ` set (apply_updates [] (steps ?sop))"
    by (simp add: first_step_def second_step_def)
  from unknown_step_is_skipped [OF a b, of "''2024-01-02''" "[Set_command ''echo 5'']" "[]"
      "''validator''"] a b
  show ?thesis by simp
qed

text \<open>
  The claim as it was stated fails on the SOP of scenario A: no step has the number 5,
  and refining with an entry for step 5 reports success and the next version.
\<close>

theorem unknown_step_reports_success:
  "5 \<notin> step_number ` set (steps (test_sop [first_step, second_step [1]] []))
   \<and> fst (refine_sop ''2024-01-02'' (test_agent (test_sop [first_step, second_step [1]] []))
        ''test_sop'' [(5, [Set_command ''echo 5''])] ''validator'')
      = (True, ''SOP refined to v1.0.1'')"
  by (simp add: refine_sop_def Let_def bump_version_first first_step_def second_step_def)

lemma getattr_set_attr_same:
  "value_of c \<noteq> None \<Longrightarrow> getattr (set_attr s c) (key_of c) = value_of c"
  by (cases c) (simp_all add: getattr_def)

lemma update_first_hit:
  "i < length ss \<Longrightarrow> step_number (ss ! i) = n \<Longrightarrow> \<forall>j < i. step_number (ss ! j) \<noteq> n \<Longrightarrow>
     update_first n cs ss ! i = foldl set_attr (ss ! i) cs"
proof (induction ss arbitrary: i)
  case Nil
  then show ?case by simp
next
  case (Cons s ss)
  show ?case
  proof (cases i)
    case 0
    with Cons.prems show ?thesis by simp
  next
    case (Suc m)
    with Cons.prems have "step_number s \<noteq> n"
      by auto
    moreover have "update_first n cs ss ! m = foldl set_attr (ss ! m) cs"
      using Cons.prems Suc by (intro Cons.IH) auto
    ultimately show ?thesis using Suc by simp
  qed
qed

text \<open>
  Claim C5, as the code has it. \<^verbatim>\<open>refine_sop\<close> assigns every key of the changes that is an
  attribute of the step, whichever it is. What it leaves alone, whether it then reports
  success or failure: the number of steps; in every step every attribute that no entry of
  \<^verbatim>\<open>updates\<close> names; and every step whose number is not a key of \<^verbatim>\<open>updates\<close>. What
  it changes (last conjunct, for one entry with one change): in the first step with the
  number given, the attribute named has the value given afterwards, whichever of the
  thirteen attributes it is.
\<close>

theorem refine_frame:
  assumes "sops agent sid = Some sop"
  shows "\<exists>sop'. sops (snd (refine_sop now agent sid updates who)) sid = Some sop'
           \<and> length (steps sop') = length (steps sop)
           \<and> (\<forall>k. k \<notin> keys_changed updates \<longrightarrow>
                map (\<lambda>s. getattr s k) (steps sop') = map (\<lambda>s. getattr s k) (steps sop))
           \<and> (\<forall>i. i < length (steps sop) \<and> step_number (steps sop ! i) \<notin> fst ` set updates \<longrightarrow>
                steps sop' ! i = steps sop ! i)
           \<and> (\<forall>n c i. updates = [(n, [c])] \<and> value_of c \<noteq> None \<and> i < length (steps sop)
                  \<and> step_number (steps sop ! i) = n
                  \<and> (\<forall>j < i. step_number (steps sop ! j) \<noteq> n) \<longrightarrow>
                getattr (steps sop' ! i) (key_of c) = value_of c)"
proof -
  from refine_sop_result_steps [OF assms, of now updates who] obtain sop' where
    s: "sops (snd (refine_sop now agent sid updates who)) sid = Some sop'"
    and st: "steps sop' = apply_updates updates (steps sop)"
    by blast
  have "length (steps sop') = length (steps sop)"
    by (simp add: st)
  moreover have "map (\<lambda>s. getattr s k) (steps sop') = map (\<lambda>s. getattr s k) (steps sop)"
    if "k \<notin> keys_changed updates" for k
    using that by (simp add: st getattr_apply_updates)
  moreover have "steps sop' ! i = steps sop ! i"
    if "i < length (steps sop) \<and> step_number (steps sop ! i) \<notin> fst ` set updates" for i
    using that by (simp add: st apply_updates_other)
  moreover have "getattr (steps sop' ! i) (key_of c) = value_of c"
    if "updates = [(n, [c])] \<and> value_of c \<noteq> None \<and> i < length (steps sop)
        \<and> step_number (steps sop ! i) = n \<and> (\<forall>j < i. step_number (steps sop ! j) \<noteq> n)"
    for n c i
    using that by (simp add: st update_first_hit getattr_set_attr_same)
  ultimately show ?thesis using s by blast
qed

theorem refine_frame_witness:
  "sops (test_agent (test_sop [first_step, second_step [1]] [])) ''test_sop''
     = Some (test_sop [first_step, second_step [1]] [])
   \<and> ''command'' \<notin> keys_changed [(1, [Set_name ''Check'', Set_timeout_seconds 60])]
   \<and> (\<exists>sop'. sops (snd (refine_sop ''2024-01-02''
                  (test_agent (test_sop [first_step, second_step [1]] [])) ''test_sop''
                  [(1, [Set_name ''Check'', Set_timeout_seconds 60])] ''validator'')) ''test_sop''
                = Some sop'
          \<and> length (steps sop') = 2
          \<and> map (\<lambda>s. getattr s ''command'') (steps sop')
              = [Some (Str_value ''echo 1''), Some (Str_value ''echo 2'')]
          \<and> steps sop' ! 1 = second_step [1])
   \<and> (\<exists>sop'. sops (snd (refine_sop ''2024-01-02''
                  (test_agent (test_sop [first_step, second_step [1]] [])) ''test_sop''
                  [(2, [Set_retry_on_failure False])] ''validator'')) ''test_sop''
                = Some sop'
          \<and> getattr (steps sop' ! 1) ''retry_on_failure'' = Some (Bool_value False))"
proof -
  let ?sop = "test_sop [first_step, second_step [1]] []"
  let ?us = "[(1, [Set_name ''Check'', Set_timeout_seconds 60])]"
  let ?vs = "[(2 :: int, [Set_retry_on_failure False])]"
  have a: "sops (test_agent ?sop) ''test_sop'' = Some ?sop"
    by simp
  have k: "''command'' \<notin> keys_changed ?us"
    by (simp add: keys_changed_def)
  have i: "(1::nat) < length (steps ?sop) \<and> step_number (steps ?sop ! 1) \<notin> fst ` set ?us"
    by (simp add: second_step_def)
  have c: "map (\<lambda>s. getattr s ''command'') (steps ?sop)
      = [Some (Str_value ''echo 1''), Some (Str_value ''echo 2'')]"
    by (simp add: getattr_def first_step_def second_step_def)
  from refine_frame [OF a, of "''2024-01-02''" ?us "''validator''"] obtain sop' where
    "sops (snd (refine_sop ''2024-01-02'' (test_agent ?sop) ''test_sop'' ?us ''validator''))
       ''test_sop'' = Some sop'"
    "length (steps sop') = length (steps ?sop)"
    "\<forall>k. k \<notin> keys_changed ?us \<longrightarrow>
       map (\<lambda>s. getattr s k) (steps sop') = map (\<lambda>s. getattr s k) (steps ?sop)"
    "\<forall>i. i < length (steps ?sop) \<and> step_number (steps ?sop ! i) \<notin> fst ` set ?us \<longrightarrow>
       steps sop' ! i = steps ?sop ! i"
    by blast
  with k i c have r: "sops (snd (refine_sop ''2024-01-02'' (test_agent ?sop) ''test_sop'' ?us
        ''validator'')) ''test_sop'' = Some sop'
      \<and> length (steps sop') = 2
      \<and> map (\<lambda>s. getattr s ''command'') (steps sop')
          = [Some (Str_value ''echo 1''), Some (Str_value ''echo 2'')]
      \<and> steps sop' ! 1 = second_step [1]"
    by (metis One_nat_def length_Cons list.size(3) nth_Cons_0 nth_Cons_Suc numeral_2_eq_2
        steps_test_sop)
  from refine_frame [OF a, of "''2024-01-02''" ?vs "''validator''"] obtain sop2 where
    s2: "sops (snd (refine_sop ''2024-01-02'' (test_agent ?sop) ''test_sop'' ?vs ''validator''))
       ''test_sop'' = Some sop2"
    and hit: "\<forall>n c i. ?vs = [(n, [c])] \<and> value_of c \<noteq> None \<and> i < length (steps ?sop)
        \<and> step_number (steps ?sop ! i) = n \<and> (\<forall>j < i. step_number (steps ?sop ! j) \<noteq> n) \<longrightarrow>
        getattr (steps sop2 ! i) (key_of c) = value_of c"
    by blast
  have "?vs = [(2, [Set_retry_on_failure False])] \<and> value_of (Set_retry_on_failure False) \<noteq> None
      \<and> (1::nat) < length (steps ?sop) \<and> step_number (steps ?sop ! 1) = 2
      \<and> (\<forall>j < (1::nat). step_number (steps ?sop ! j) \<noteq> 2)"
    by (simp add: first_step_def second_step_def)
  with hit have "getattr (steps sop2 ! 1) (key_of (Set_retry_on_failure False))
      = value_of (Set_retry_on_failure False)"
    by blast
  then have "getattr (steps sop2 ! 1) ''retry_on_failure'' = Some (Bool_value False)"
    by simp
  with s2 have r2: "\<exists>sop'. sops (snd (refine_sop ''2024-01-02'' (test_agent ?sop) ''test_sop''
        ?vs ''validator'')) ''test_sop'' = Some sop'
      \<and> getattr (steps sop' ! 1) ''retry_on_failure'' = Some (Bool_value False)"
    by auto
  from r have r1: "\<exists>sop'. sops (snd (refine_sop ''2024-01-02'' (test_agent ?sop) ''test_sop'' ?us
        ''validator'')) ''test_sop'' = Some sop'
      \<and> length (steps sop') = 2
      \<and> map (\<lambda>s. getattr s ''command'') (steps sop')
          = [Some (Str_value ''echo 1''), Some (Str_value ''echo 2'')]
      \<and> steps sop' ! 1 = second_step [1]"
    by auto
  from a k r1 r2 show ?thesis
    by (intro conjI)
qed

text \<open>
  The claim as it was stated fails on the SOP of scenario A: an entry for step 1 that
  names \<^verbatim>\<open>step_number\<close>, \<^verbatim>\<open>retry_on_failure\<close>, \<^verbatim>\<open>max_retries\<close> and \<^verbatim>\<open>component\<close>
  changes all four, none of which is in the list of the claim.
\<close>

theorem refine_changes_other_fields:
  "map step_number (steps (the (sops (snd (refine_sop ''2024-01-02''
       (test_agent (test_sop [first_step, second_step [1]] [])) ''test_sop''
       [(1, [Set_step_number 7, Set_retry_on_failure False, Set_max_retries 0,
             Set_component ''core''])] ''validator'')) ''test_sop''))) = [7, 2]
   \<and> map retry_on_failure (steps (the (sops (snd (refine_sop ''2024-01-02''
       (test_agent (test_sop [first_step, second_step [1]] [])) ''test_sop''
       [(1, [Set_step_number 7, Set_retry_on_failure False, Set_max_retries 0,
             Set_component ''core''])] ''validator'')) ''test_sop''))) = [False, True]
   \<and> map max_retries (steps (the (sops (snd (refine_sop ''2024-01-02''
       (test_agent (test_sop [first_step, second_step [1]] [])) ''test_sop''
       [(1, [Set_step_number 7, Set_retry_on_failure False, Set_max_retries 0,
             Set_component ''core''])] ''validator'')) ''test_sop''))) = [0, 3]
   \<and> map SOPStep.component (steps (the (sops (snd (refine_sop ''2024-01-02''
       (test_agent (test_sop [first_step, second_step [1]] [])) ''test_sop''
       [(1, [Set_step_number 7, Set_retry_on_failure False, Set_max_retries 0,
             Set_component ''core''])] ''validator'')) ''test_sop''))) = [''core'', ''test'']
   \<and> map step_number (steps (test_sop [first_step, second_step [1]] [])) = [1, 2]
   \<and> map retry_on_failure (steps (test_sop [first_step, second_step [1]] [])) = [True, True]
   \<and> map max_retries (steps (test_sop [first_step, second_step [1]] [])) = [3, 3]
   \<and> map SOPStep.component (steps (test_sop [first_step, second_step [1]] []))
       = [''test'', ''test'']"
  by (simp add: refine_sop_def Let_def bump_version_first first_step_def second_step_def)

section \<open>The content hash\<close>

lemma refine_sop_hash:
  assumes "refine_sop now agent sid updates who = ((True, msg), agent')"
  shows "\<exists>sop sop'. sops agent sid = Some sop \<and> sops agent' sid = Some sop'
           \<and> steps sop' = apply_updates updates (steps sop)
           \<and> content_hash sop' = compute_hash (steps sop')"
  using assms by (auto simp: refine_sop_def Let_def split: option.splits)

lemma create_sop_hash:
  assumes "create_sop_from_operations now agent sid nm d c p ops who = ((True, msg), agent')"
  shows "\<exists>sop'. sops agent' sid = Some sop' \<and> steps sop' = steps_from c 1 ops
           \<and> content_hash sop' = compute_hash (steps sop')"
  using assms by (auto simp: create_sop_from_operations_def Let_def split: if_splits)

section \<open>The report of the validator\<close>

lemma report_fields:
  "errors (fst (validate_sop_comprehensive ts now v d r)) = count_type ''error'' (all_findings d r)"
  "overall_quality_score (fst (validate_sop_comprehensive ts now v d r))
     = quality_score (all_findings d r)"
  "is_approved (fst (validate_sop_comprehensive ts now v d r))
     = (count_type ''error'' (all_findings d r) = 0 \<and> quality_score (all_findings d r) \<ge> 80)"
  "findings (fst (validate_sop_comprehensive ts now v d r)) = all_findings d r"
  by (simp_all add: validate_sop_comprehensive_def Let_def)

lemma foldl_deduct: "foldl deduct q fs = q - sum_list (map weight fs)"
  by (induction fs arbitrary: q) (simp_all add: deduct_def weight_def)

lemma quality_score_weights: "quality_score fs = max 0 (100 - sum_list (map weight fs))"
  by (simp add: quality_score_def foldl_deduct)

lemma count_type_append [simp]: "count_type t (fs @ gs) = count_type t fs + count_type t gs"
  by (simp add: count_type_def)

lemma count_type_nonneg [simp]: "0 \<le> count_type t fs"
  by (simp add: count_type_def)

lemma count_type_zero: "count_type t fs = 0 \<longleftrightarrow> (\<forall>f \<in> set fs. finding_type f \<noteq> t)"
  by (induction fs) (auto simp: count_type_def)

lemma severity_finding [simp]: "severity (finding a b c e n m rcm sev) = sev"
  by (simp add: finding_def)

lemma severity_numbering: "f \<in> set (numbering_findings sid i ss) \<Longrightarrow> 0 \<le> severity f"
  by (induction ss arbitrary: i) (auto split: if_splits)

lemma severity_structure: "f \<in> set (check_structure d) \<Longrightarrow> 0 \<le> severity f"
  by (auto simp: check_structure_def Let_def severity_numbering split: if_splits)

lemma severity_syntax: "f \<in> set (check_syntax d) \<Longrightarrow> 0 \<le> severity f"
  by (auto simp: check_syntax_def syntax_findings_def Let_def split: if_splits)

lemma severity_logic: "f \<in> set (check_logic d) \<Longrightarrow> 0 \<le> severity f"
  by (auto simp: check_logic_def logic_findings_def dep_findings_def split: if_splits)

lemma severity_efficiency: "f \<in> set (check_efficiency d) \<Longrightarrow> 0 \<le> severity f"
  by (auto simp: check_efficiency_def timeout_findings_def Let_def split: if_splits)

lemma severity_clarity: "f \<in> set (check_clarity d) \<Longrightarrow> 0 \<le> severity f"
  by (auto simp: check_clarity_def description_findings_def Let_def split: if_splits)

lemma severity_execution: "f \<in> set (check_execution d x) \<Longrightarrow> 0 \<le> severity f"
  by (auto simp: check_execution_def split: if_splits)

lemma weight_nonneg: "0 \<le> severity f \<Longrightarrow> 0 \<le> weight f"
  by (simp add: weight_def)

lemma weights_nonneg:
  "(\<And>f. f \<in> set fs \<Longrightarrow> 0 \<le> severity f) \<Longrightarrow> 0 \<le> sum_list (map weight fs)"
  by (rule sum_list_nonneg) (auto simp: weight_nonneg)

text \<open>
  Claim C3, as the code has it. \<^verbatim>\<open>validate_sop_comprehensive\<close> executes nothing: its
  verdict is \<^verbatim>\<open>errors == 0 and quality_score >= 80\<close>, that is, no finding is an error and
  the weights of the findings add up to 20 at most, and all it does to the validator is to
  append the report to the history. The dry run is made by the other validation,
  \<^verbatim>\<open>AutoSOPAgent.validate_sop\<close>, which knows no score: it answers \<^verbatim>\<open>True\<close> exactly when
  the SOP is stored, its four checks pass and the dry run through \<^verbatim>\<open>execute_sop\<close>
  succeeds.
\<close>

theorem approval_rule:
  "(is_approved (fst (validate_sop_comprehensive ts now v d r))
      \<longleftrightarrow> errors (fst (validate_sop_comprehensive ts now v d r)) = 0
          \<and> overall_quality_score (fst (validate_sop_comprehensive ts now v d r)) \<ge> 80)
   \<and> (is_approved (fst (validate_sop_comprehensive ts now v d r))
      \<longleftrightarrow> (\<forall>f \<in> set (findings (fst (validate_sop_comprehensive ts now v d r))).
               finding_type f \<noteq> ''error'')
          \<and> sum_list (map weight (findings (fst (validate_sop_comprehensive ts now v d r)))) \<le> 20)
   \<and> snd (validate_sop_comprehensive ts now v d r)
       = v\<lparr>validation_history :=
             validation_history v @ [fst (validate_sop_comprehensive ts now v d r)]\<rparr>
   \<and> (fst (validate_sop env agent sid) = Inr True
      \<longleftrightarrow> (\<exists>sop e. sops agent sid = Some sop
             \<and> validate_structure sop \<and> validate_syntax sop
             \<and> validate_dependencies sop \<and> validate_completeness sop
             \<and> fst (execute_sop env agent sid True) = Inr (True, e)))"
proof -
  let ?rep = "fst (validate_sop_comprehensive ts now v d r)"
  have one: "is_approved ?rep \<longleftrightarrow> errors ?rep = 0 \<and> overall_quality_score ?rep \<ge> 80"
    by (simp add: report_fields)
  have "quality_score fs \<ge> 80 \<longleftrightarrow> sum_list (map weight fs) \<le> 20" for fs
    by (auto simp: quality_score_weights max_def)
  then have two: "is_approved ?rep \<longleftrightarrow>
      (\<forall>f \<in> set (findings ?rep). finding_type f \<noteq> ''error'')
      \<and> sum_list (map weight (findings ?rep)) \<le> 20"
    by (simp add: report_fields count_type_zero)
  have three: "snd (validate_sop_comprehensive ts now v d r)
      = v\<lparr>validation_history := validation_history v @ [?rep]\<rparr>"
    by (simp add: validate_sop_comprehensive_def Let_def)
  have four: "fst (validate_sop env agent sid) = Inr True
      \<longleftrightarrow> (\<exists>sop e. sops agent sid = Some sop
             \<and> validate_structure sop \<and> validate_syntax sop
             \<and> validate_dependencies sop \<and> validate_completeness sop
             \<and> fst (execute_sop env agent sid True) = Inr (True, e))"
  proof (cases "sops agent sid")
    case None
    then show ?thesis by (simp add: validate_sop_def)
  next
    case (Some sop)
    obtain res agent1 where ex: "execute_sop env agent sid True = (res, agent1)"
      by (cases "execute_sop env agent sid True")
    show ?thesis
    proof (cases res)
      case (Inl err)
      with Some ex show ?thesis by (simp add: validate_sop_def)
    next
      case (Inr pair)
      obtain success e where "pair = (success, e)" by (cases pair)
      with Some ex Inr show ?thesis by (auto simp: validate_sop_def Let_def)
    qed
  qed
  from one two three four show ?thesis by blast
qed

lemma findings_scenario_a:
  "all_findings (test_sop [first_step, second_step [1]] [''git'']) None = []"
  by (simp add: all_findings_def check_structure_def missing_fields_def check_syntax_def
      syntax_findings_def check_logic_def logic_findings_def dep_findings_def
      check_efficiency_def timeout_findings_def check_clarity_def description_findings_def
      test_sop_def first_step_def second_step_def Let_def)

lemma findings_without_prerequisites:
  "all_findings (test_sop [first_step, second_step [1]] []) None
     = [finding ''CLR_002_test_sop'' ''test_sop'' ''suggestion'' ''clarity'' None
          ''SOP has no prerequisites listed'' ''Add prerequisites section if applicable'' 1]"
  by (simp add: all_findings_def check_structure_def missing_fields_def check_syntax_def
      syntax_findings_def check_logic_def logic_findings_def dep_findings_def
      check_efficiency_def timeout_findings_def check_clarity_def description_findings_def
      test_sop_def first_step_def second_step_def Let_def)

lemma dry_run_scenario_a:
  "\<exists>e. fst (execute_sop (test_env 0)
          (test_agent (test_sop [first_step, second_step [1]] [''git''])) ''test_sop'' True)
        = Inr (False, e)"
  by (simp add: execute_sop_def Let_def test_agent_def run_steps_def finish_execution_def
      new_execution_def execute_step_def deps_met_def test_sop_def first_step_def
      second_step_def count_execution_def)

theorem approval_rule_witness:
  "is_approved (fst (validate_sop_comprehensive 1704067200 ''2024-01-01T00:00:00''
      test_validator (test_sop [first_step, second_step [1]] []) None))
   \<and> errors (fst (validate_sop_comprehensive 1704067200 ''2024-01-01T00:00:00''
      test_validator (test_sop [first_step, second_step [1]] []) None)) = 0
   \<and> sum_list (map weight (findings (fst (validate_sop_comprehensive 1704067200
      ''2024-01-01T00:00:00'' test_validator (test_sop [first_step, second_step [1]] []) None))))
      = 1 / 2"
  using approval_rule [of 1704067200 "''2024-01-01T00:00:00''" test_validator
      "test_sop [first_step, second_step [1]] []" None]
  by (simp add: report_fields findings_without_prerequisites weight_def finding_def
      count_type_def quality_score_def deduct_def)

text \<open>
  The claim as it was stated fails on the SOP of scenario A: the validator approves it,
  with no error and the score 100, and runs no self-test; the dry run of the same SOP
  through \<^verbatim>\<open>execute_sop\<close> does not succeed (the second step names a dependency), and
  \<^verbatim>\<open>validate_sop\<close> of the agent, which does make the dry run, answers \<^verbatim>\<open>False\<close>.
\<close>

theorem approved_although_dry_run_fails:
  "is_approved (test_report (test_sop [first_step, second_step [1]] [''git'']) None)
   \<and> errors (test_report (test_sop [first_step, second_step [1]] [''git'']) None) = 0
   \<and> overall_quality_score (test_report (test_sop [first_step, second_step [1]] [''git'']) None)
       = 100
   \<and> (\<exists>e. fst (execute_sop (test_env 0)
            (test_agent (test_sop [first_step, second_step [1]] [''git''])) ''test_sop'' True)
          = Inr (False, e))
   \<and> fst (validate_sop (test_env 0)
        (test_agent (test_sop [first_step, second_step [1]] [''git''])) ''test_sop'')
      = Inr False"
proof -
  let ?d = "test_sop [first_step, second_step [1]] [''git'']"
  have rep: "is_approved (test_report ?d None)" "errors (test_report ?d None) = 0"
    "overall_quality_score (test_report ?d None) = 100"
    by (simp_all add: test_report_def report_fields findings_scenario_a quality_score_def
        count_type_def)
  obtain e where e: "fst (execute_sop (test_env 0) (test_agent ?d) ''test_sop'' True)
      = Inr (False, e)"
    using dry_run_scenario_a by blast
  obtain a1 where "execute_sop (test_env 0) (test_agent ?d) ''test_sop'' True
      = (Inr (False, e), a1)"
    using e by (cases "execute_sop (test_env 0) (test_agent ?d) ''test_sop'' True") simp
  then have "fst (validate_sop (test_env 0) (test_agent ?d) ''test_sop'') = Inr False"
    by (simp add: validate_sop_def Let_def)
  with rep e show ?thesis by blast
qed

section \<open>Scenario A\<close>

text \<open>
  Claim C8, as the code has it. The two steps \<^verbatim>\<open>echo 1\<close> and \<^verbatim>\<open>echo 2\<close> (the second
  depending on the first) with descriptions of ten characters or more give no finding, the
  score 100 and approval when, besides, the steps are numbered 1 and 2, have names and
  timeouts of an hour at most, the SOP has an id, a name, a version, a component, a
  description of twenty characters or more and at least one prerequisite, and no results
  of a failed execution are passed in. The description and the prerequisites of the SOP
  each cost half a point when they are wanting.
\<close>

theorem scenario_a_clean:
  assumes "steps d = [s1, s2]"
    and "command s1 = ''echo 1''" and "command s2 = ''echo 2''"
    and "dependencies s1 = []" and "dependencies s2 = [1]"
    and "10 \<le> length (SOPStep.description s1)" and "10 \<le> length (SOPStep.description s2)"
    and "step_number s1 = 1" and "step_number s2 = 2"
    and "SOPStep.name s1 \<noteq> []" and "SOPStep.name s2 \<noteq> []"
    and "timeout_seconds s1 \<le> 3600" and "timeout_seconds s2 \<le> 3600"
    and "SOPDefinition.sop_id d \<noteq> []" and "SOPDefinition.name d \<noteq> []"
    and "version d \<noteq> []" and "SOPDefinition.component d \<noteq> []"
    and "20 \<le> length (SOPDefinition.description d)"
    and "prerequisites d \<noteq> []"
    and "\<forall>x. r = Some x \<longrightarrow> results_status x \<noteq> ''FAILED'' \<or> results_failed_steps x = []"
  shows "findings (fst (validate_sop_comprehensive ts now v d r)) = []
       \<and> errors (fst (validate_sop_comprehensive ts now v d r)) = 0
       \<and> overall_quality_score (fst (validate_sop_comprehensive ts now v d r)) = 100
       \<and> is_approved (fst (validate_sop_comprehensive ts now v d r))"
proof -
  have descr: "SOPStep.description s1 \<noteq> []" "SOPStep.description s2 \<noteq> []"
    "SOPDefinition.description d \<noteq> []"
    using assms(6,7,18) by auto
  have short: "\<not> length (SOPStep.description s1) < 10" "\<not> length (SOPStep.description s2) < 10"
    "\<not> length (SOPDefinition.description d) < 20"
    using assms(6,7,18) by auto
  have long: "\<not> timeout_seconds s1 > 3600" "\<not> timeout_seconds s2 > 3600"
    using assms(12,13) by auto
  have str_none: "check_structure d = []"
    using assms(1,8,9,14-17) descr by (simp add: check_structure_def missing_fields_def)
  have syn_none: "check_syntax d = []"
    using assms(1-3,10,11) descr by (simp add: check_syntax_def syntax_findings_def)
  have log_none: "check_logic d = []"
    using assms(1,4,5,8,9)
    by (simp add: check_logic_def logic_findings_def dep_findings_def)
  have eff_none: "check_efficiency d = []"
    using assms(1) long by (simp add: check_efficiency_def timeout_findings_def)
  have clr_none: "check_clarity d = []"
    using assms(1,19) short by (simp add: check_clarity_def description_findings_def)
  have exe_none: "(case r of None \<Rightarrow> [] | Some res \<Rightarrow> check_execution d res) = []"
    using assms(20) by (cases r) (auto simp: check_execution_def)
  have "all_findings d r = []"
    by (simp add: all_findings_def str_none syn_none log_none eff_none clr_none exe_none)
  then show ?thesis
    by (simp add: report_fields quality_score_def count_type_def)
qed

theorem scenario_a_clean_witness:
  "steps (test_sop [first_step, second_step [1]] [''git'']) = [first_step, second_step [1]]
   \<and> command first_step = ''echo 1'' \<and> command (second_step [1]) = ''echo 2''
   \<and> dependencies first_step = [] \<and> dependencies (second_step [1]) = [1]
   \<and> 10 \<le> length (SOPStep.description first_step)
   \<and> 10 \<le> length (SOPStep.description (second_step [1]))
   \<and> prerequisites (test_sop [first_step, second_step [1]] [''git'']) \<noteq> []
   \<and> findings (test_report (test_sop [first_step, second_step [1]] [''git'']) None) = []
   \<and> errors (test_report (test_sop [first_step, second_step [1]] [''git'']) None) = 0
   \<and> overall_quality_score (test_report (test_sop [first_step, second_step [1]] [''git'']) None)
       = 100
   \<and> is_approved (test_report (test_sop [first_step, second_step [1]] [''git'']) None)"
proof -
  let ?d = "test_sop [first_step, second_step [1]] [''git'']"
  have s: "steps ?d = [first_step, second_step [1]]"
    by simp
  have f: "command first_step = ''echo 1''" "dependencies first_step = []"
    "10 \<le> length (SOPStep.description first_step)" "step_number first_step = 1"
    "SOPStep.name first_step \<noteq> []" "timeout_seconds first_step \<le> 3600"
    by (simp_all add: first_step_def)
  have g: "command (second_step [1]) = ''echo 2''" "dependencies (second_step [1]) = [1]"
    "10 \<le> length (SOPStep.description (second_step [1]))" "step_number (second_step [1]) = 2"
    "SOPStep.name (second_step [1]) \<noteq> []" "timeout_seconds (second_step [1]) \<le> 3600"
    by (simp_all add: second_step_def)
  have d: "SOPDefinition.sop_id ?d \<noteq> []" "SOPDefinition.name ?d \<noteq> []" "version ?d \<noteq> []"
    "SOPDefinition.component ?d \<noteq> []" "20 \<le> length (SOPDefinition.description ?d)"
    "prerequisites ?d \<noteq> []"
    by (simp_all add: test_sop_def)
  have r: "\<forall>x. (None :: execution_results option) = Some x \<longrightarrow>
      results_status x \<noteq> ''FAILED'' \<or> results_failed_steps x = []"
    by simp
  from scenario_a_clean [OF s f(1) g(1) f(2) g(2) f(3) g(3) f(4) g(4) f(5) g(5) f(6) g(6)
      d(1-6) r, of 1704067200 "''2024-01-01T00:00:00''" test_validator]
  have "findings (test_report ?d None) = [] \<and> errors (test_report ?d None) = 0
      \<and> overall_quality_score (test_report ?d None) = 100 \<and> is_approved (test_report ?d None)"
    by (simp add: test_report_def)
  with s f g d show ?thesis by simp
qed

text \<open>
  The claim as it was stated fails on the same two steps in a SOP without prerequisites,
  which is what \<^verbatim>\<open>create_sop_from_operations\<close> builds and what the example at the end of
  \<^verbatim>\<open>sop_validator_refiner.py\<close> is: there is one finding, a suggestion, and the score is
  99.5.
\<close>

theorem scenario_a_without_prerequisites:
  "command first_step = ''echo 1'' \<and> command (second_step [1]) = ''echo 2''
   \<and> dependencies (second_step [1]) = [1]
   \<and> 10 \<le> length (SOPStep.description first_step)
   \<and> 10 \<le> length (SOPStep.description (second_step [1]))
   \<and> suggestions (test_report (test_sop [first_step, second_step [1]] []) None) = 1
   \<and> errors (test_report (test_sop [first_step, second_step [1]] []) None) = 0
   \<and> overall_quality_score (test_report (test_sop [first_step, second_step [1]] []) None)
       = 199 / 2
   \<and> overall_quality_score (test_report (test_sop [first_step, second_step [1]] []) None)
       \<noteq> 100"
proof -
  let ?d = "test_sop [first_step, second_step [1]] []"
  have "suggestions (test_report ?d None) = count_type ''suggestion'' (all_findings ?d None)"
    by (simp add: test_report_def validate_sop_comprehensive_def Let_def)
  then have "suggestions (test_report ?d None) = 1"
    by (simp add: findings_without_prerequisites count_type_def finding_def)
  moreover have "errors (test_report ?d None) = 0"
    "overall_quality_score (test_report ?d None) = 199 / 2"
    by (simp_all add: test_report_def report_fields findings_without_prerequisites
        quality_score_def deduct_def finding_def count_type_def)
  ultimately show ?thesis
    by (simp add: first_step_def second_step_def)
qed

section \<open>Scenario B\<close>

lemma py_str_2 [simp]: "py_str 2 = ''2''"
  by (simp add: py_str_def)

lemma py_str_3 [simp]: "py_str 3 = ''3''"
  by (simp add: py_str_def)

lemma logic_of_forward_dependency:
  assumes "steps d = [s1, s2]"
    and "step_number s1 = 1" and "step_number s2 = 2"
    and "dependencies s1 = []" and "dependencies s2 = [3]"
  shows "check_logic d =
      [finding (''LOG_001_'' @ SOPDefinition.sop_id d @ ''_step2'') (SOPDefinition.sop_id d)
         ''error'' ''logic'' (Some 2) ''Dependency references non-existent step: 3''
         ''Remove or fix reference to step 3'' 5,
       finding (''LOG_002_'' @ SOPDefinition.sop_id d @ ''_step2'') (SOPDefinition.sop_id d)
         ''error'' ''logic'' (Some 2)
         ''Circular or forward dependency: step 2 depends on step 3''
         ''Reorder steps to remove circular dependencies'' 5]"
  using assms by (simp add: check_logic_def logic_findings_def dep_findings_def)

text \<open>
  Claim C2, as the code has it. In a SOP of two steps numbered 1 and 2 of which the second
  names the dependency 3, \<^verbatim>\<open>_check_logic\<close> makes two findings for that one dependency,
  both errors of severity 5 in the category logic: one because 3 is not the number of a
  step, one because 3 is not below 2. So every report of such a SOP counts at least two
  errors, has a score of 80 at most and is not approved; when the other checks find
  nothing and no execution results are passed in, the errors are exactly these two and the
  score is exactly 80.
\<close>

theorem forward_dependency_findings:
  assumes "steps d = [s1, s2]"
    and "step_number s1 = 1" and "step_number s2 = 2"
    and "dependencies s1 = []" and "dependencies s2 = [3]"
  shows "check_logic d =
      [finding (''LOG_001_'' @ SOPDefinition.sop_id d @ ''_step2'') (SOPDefinition.sop_id d)
         ''error'' ''logic'' (Some 2) ''Dependency references non-existent step: 3''
         ''Remove or fix reference to step 3'' 5,
       finding (''LOG_002_'' @ SOPDefinition.sop_id d @ ''_step2'') (SOPDefinition.sop_id d)
         ''error'' ''logic'' (Some 2)
         ''Circular or forward dependency: step 2 depends on step 3''
         ''Reorder steps to remove circular dependencies'' 5]
    \<and> 2 \<le> errors (fst (validate_sop_comprehensive ts now v d r))
    \<and> overall_quality_score (fst (validate_sop_comprehensive ts now v d r)) \<le> 80
    \<and> \<not> is_approved (fst (validate_sop_comprehensive ts now v d r))
    \<and> (check_structure d = [] \<and> check_syntax d = [] \<and> check_efficiency d = []
          \<and> check_clarity d = [] \<longrightarrow>
        errors (fst (validate_sop_comprehensive ts now v d None)) = 2
        \<and> overall_quality_score (fst (validate_sop_comprehensive ts now v d None)) = 80)"
proof -
  let ?l = "check_logic d"
  let ?a = "check_structure d @ check_syntax d"
  let ?b = "check_efficiency d @ check_clarity d
            @ (case r of None \<Rightarrow> [] | Some res \<Rightarrow> check_execution d res)"
  note l = logic_of_forward_dependency [OF assms]
  have cl: "count_type ''error'' ?l = 2"
    unfolding l by (simp add: count_type_def finding_def)
  have wl: "sum_list (map weight ?l) = 20"
    unfolding l by (simp add: weight_def finding_def)
  have split: "all_findings d r = ?a @ ?l @ ?b"
    by (simp add: all_findings_def)
  have wa: "0 \<le> sum_list (map weight ?a)"
    by (rule weights_nonneg) (auto dest: severity_structure severity_syntax)
  have wb: "0 \<le> sum_list (map weight ?b)"
    by (rule weights_nonneg)
      (auto dest: severity_efficiency severity_clarity severity_execution split: option.splits)
  have errs: "2 \<le> count_type ''error'' (all_findings d r)"
  proof -
    have "count_type ''error'' (all_findings d r)
        = count_type ''error'' ?a + 2 + count_type ''error'' ?b"
      unfolding split by (simp only: count_type_append cl)
    moreover have "0 \<le> count_type ''error'' ?a" "0 \<le> count_type ''error'' ?b"
      by (rule count_type_nonneg)+
    ultimately show ?thesis by linarith
  qed
  have "sum_list (map weight (all_findings d r))
      = sum_list (map weight ?a) + 20 + sum_list (map weight ?b)"
    unfolding split by (simp only: map_append sum_list_append wl)
  with wa wb have "20 \<le> sum_list (map weight (all_findings d r))"
    by linarith
  then have score: "quality_score (all_findings d r) \<le> 80"
    by (simp add: quality_score_weights)
  have exact: "count_type ''error'' (all_findings d None) = 2
      \<and> quality_score (all_findings d None) = 80"
    if "check_structure d = [] \<and> check_syntax d = [] \<and> check_efficiency d = []
        \<and> check_clarity d = []"
  proof -
    have "all_findings d None = ?l"
      using that by (simp add: all_findings_def)
    then show ?thesis
      by (simp add: cl wl quality_score_weights)
  qed
  from l errs score exact show ?thesis
    by (simp add: report_fields)
qed

lemma findings_scenario_b:
  "check_structure (test_sop [first_step, second_step [3]] [''git'']) = []
   \<and> check_syntax (test_sop [first_step, second_step [3]] [''git'']) = []
   \<and> check_efficiency (test_sop [first_step, second_step [3]] [''git'']) = []
   \<and> check_clarity (test_sop [first_step, second_step [3]] [''git'']) = []"
  by (simp add: check_structure_def missing_fields_def check_syntax_def syntax_findings_def
      check_efficiency_def timeout_findings_def check_clarity_def description_findings_def
      test_sop_def first_step_def second_step_def Let_def)

theorem forward_dependency_findings_witness:
  "steps (test_sop [first_step, second_step [3]] [''git'']) = [first_step, second_step [3]]
   \<and> step_number first_step = 1 \<and> step_number (second_step [3]) = 2
   \<and> dependencies first_step = [] \<and> dependencies (second_step [3]) = [3]
   \<and> length (check_logic (test_sop [first_step, second_step [3]] [''git''])) = 2
   \<and> 2 \<le> errors (fst (validate_sop_comprehensive 1704067200 ''2024-01-01T00:00:00''
        test_validator (test_sop [first_step, second_step [3]] [''git''])
        (Some \<lparr>results_status = ''FAILED'', results_failed_steps = [2]\<rparr>)))
   \<and> overall_quality_score (fst (validate_sop_comprehensive 1704067200 ''2024-01-01T00:00:00''
        test_validator (test_sop [first_step, second_step [3]] [''git''])
        (Some \<lparr>results_status = ''FAILED'', results_failed_steps = [2]\<rparr>))) \<le> 80"
proof -
  let ?d = "test_sop [first_step, second_step [3]] [''git'']"
  have s: "steps ?d = [first_step, second_step [3]]"
    by simp
  have n: "step_number first_step = 1" "step_number (second_step [3]) = 2"
    "dependencies first_step = []" "dependencies (second_step [3]) = [3]"
    by (simp_all add: first_step_def second_step_def)
  from forward_dependency_findings [OF s n, of 1704067200 "''2024-01-01T00:00:00''"
      test_validator "Some \<lparr>results_status = ''FAILED'', results_failed_steps = [2]\<rparr>"] s n
  show ?thesis by simp
qed

text \<open>
  The claim as it was stated fails on the SOP of scenario B, where the other checks find
  nothing: there are two logic errors, not one, and the score is 80, not 90.
\<close>

theorem forward_dependency_two_errors:
  "length (filter (\<lambda>f. finding_type f = ''error'' \<and> category f = ''logic'' \<and> severity f = 5)
       (findings (test_report (test_sop [first_step, second_step [3]] [''git'']) None))) = 2
   \<and> total_findings (test_report (test_sop [first_step, second_step [3]] [''git'']) None) = 2
   \<and> errors (test_report (test_sop [first_step, second_step [3]] [''git'']) None) = 2
   \<and> overall_quality_score (test_report (test_sop [first_step, second_step [3]] [''git'']) None)
       = 80
   \<and> overall_quality_score (test_report (test_sop [first_step, second_step [3]] [''git'']) None)
       \<noteq> 90"
proof -
  let ?d = "test_sop [first_step, second_step [3]] [''git'']"
  have "check_logic ?d =
      [finding ''LOG_001_test_sop_step2'' ''test_sop'' ''error'' ''logic'' (Some 2)
         ''Dependency references non-existent step: 3'' ''Remove or fix reference to step 3'' 5,
       finding ''LOG_002_test_sop_step2'' ''test_sop'' ''error'' ''logic'' (Some 2)
         ''Circular or forward dependency: step 2 depends on step 3''
         ''Reorder steps to remove circular dependencies'' 5]"
    by (simp add: check_logic_def logic_findings_def dep_findings_def test_sop_def
        first_step_def second_step_def)
  then have fs: "all_findings ?d None =
      [finding ''LOG_001_test_sop_step2'' ''test_sop'' ''error'' ''logic'' (Some 2)
         ''Dependency references non-existent step: 3'' ''Remove or fix reference to step 3'' 5,
       finding ''LOG_002_test_sop_step2'' ''test_sop'' ''error'' ''logic'' (Some 2)
         ''Circular or forward dependency: step 2 depends on step 3''
         ''Reorder steps to remove circular dependencies'' 5]"
    using findings_scenario_b by (simp add: all_findings_def)
  have "total_findings (test_report ?d None) = int (length (all_findings ?d None))"
    by (simp add: test_report_def validate_sop_comprehensive_def Let_def)
  then show ?thesis
    by (simp add: test_report_def report_fields fs finding_def count_type_def
        quality_score_def deduct_def)
qed

section \<open>The content hash in the states that the interface reaches\<close>

lemma of_char_digit: "d < 10 \<Longrightarrow> (of_char (char_of (48 + d :: nat)) :: nat) = 48 + d"
  by (simp add: of_char_of)

lemma is_digit_char_of: "d < 10 \<Longrightarrow> is_digit (char_of (48 + d :: nat))"
  by (simp add: is_digit_def of_char_digit)

lemma digit_val_char_of: "d < 10 \<Longrightarrow> digit_val (char_of (48 + d :: nat)) = int d"
  by (simp add: digit_val_def of_char_digit)

lemma nat_digits_digits: "list_all is_digit (nat_digits n)"
proof (induction n rule: nat_digits.induct)
  case (1 n)
  show ?case
  proof (cases "n < 10")
    case True
    then show ?thesis by (simp add: is_digit_char_of)
  next
    case False
    with 1 show ?thesis
      by (subst nat_digits.simps) (simp add: is_digit_char_of)
  qed
qed

lemma nat_digits_nonempty: "nat_digits n \<noteq> []"
  by (subst nat_digits.simps) simp

lemma parse_digits_all:
  "list_all is_digit ds \<Longrightarrow> ds \<noteq> [] \<Longrightarrow>
     parse_digits acc prev ds = Some (foldl (\<lambda>a c. a * 10 + digit_val c) acc ds)"
proof (induction ds arbitrary: acc prev)
  case Nil
  then show ?case by simp
next
  case (Cons c cs)
  from Cons.prems have c: "is_digit c" and cs: "list_all is_digit cs"
    by simp_all
  show ?case
  proof (cases "cs = []")
    case True
    with c show ?thesis by simp
  next
    case False
    from Cons.IH [OF cs False, of "acc * 10 + digit_val c" True] c show ?thesis
      by simp
  qed
qed

lemma value_nat_digits: "foldl (\<lambda>a c. a * 10 + digit_val c) 0 (nat_digits n) = int n"
proof (induction n rule: nat_digits.induct)
  case (1 n)
  show ?case
  proof (cases "n < 10")
    case True
    then show ?thesis by (simp add: digit_val_char_of)
  next
    case False
    with 1 have "foldl (\<lambda>a c. a * 10 + digit_val c) 0 (nat_digits (n div 10)) = int (n div 10)"
      by simp
    with False show ?thesis
      by (subst nat_digits.simps) (simp add: digit_val_char_of zdiv_int zmod_int)
  qed
qed

lemma digit_not_space: "is_digit c \<Longrightarrow> \<not> py_isspace c"
  by (auto simp: is_digit_def py_isspace_def Let_def)

lemma py_strip_id:
  "s \<noteq> [] \<Longrightarrow> \<not> py_isspace (hd s) \<Longrightarrow> \<not> py_isspace (last s) \<Longrightarrow> py_strip s = s"
proof -
  assume a: "s \<noteq> []" "\<not> py_isspace (hd s)" "\<not> py_isspace (last s)"
  then have "dropWhile py_isspace s = s"
    by (cases s) auto
  moreover have "dropWhile py_isspace (rev s) = rev s"
    using a by (cases "rev s") (auto simp: hd_rev)
  ultimately show ?thesis by (simp add: py_strip_def)
qed

lemma py_int_py_str: "py_int (py_str i) = Some i"
proof -
  let ?ds = "nat_digits (nat \<bar>i\<bar>)"
  have dig: "list_all is_digit ?ds" and ne: "?ds \<noteq> []"
    by (rule nat_digits_digits, rule nat_digits_nonempty)
  have val: "parse_digits 0 False ?ds = Some \<bar>i\<bar>"
    using parse_digits_all [OF dig ne, of 0 False] by (simp add: value_nat_digits)
  have h: "is_digit (hd ?ds)" and l: "is_digit (last ?ds)"
    using dig ne by (auto simp: list_all_iff)
  show ?thesis
  proof (cases "i < 0")
    case True
    have minus: "\<not> py_isspace CHR ''-''"
      by (simp add: py_isspace_def)
    have "py_strip (CHR ''-'' # ?ds) = CHR ''-'' # ?ds"
      using ne l minus by (intro py_strip_id) (auto simp: digit_not_space)
    with True val show ?thesis
      by (simp add: py_int_def py_str_def abs_if)
  next
    case False
    have s: "py_strip ?ds = ?ds"
      using ne h l by (intro py_strip_id) (auto simp: digit_not_space)
    obtain c cs where c: "?ds = c # cs" using ne by (cases ?ds) auto
    with h have "is_digit c" by simp
    then have "c \<noteq> CHR ''-''" "c \<noteq> CHR ''+''"
      by (auto simp: is_digit_def Let_def)
    with False val s c show ?thesis
      by (simp add: py_int_def py_str_def abs_if)
  qed
qed

lemma split_on_none: "sep \<notin> set p \<Longrightarrow> split_on sep p = [p]"
  by (induction p) auto

lemma split_on_append: "sep \<notin> set p \<Longrightarrow> split_on sep (p @ sep # rest) = p # split_on sep rest"
  by (induction p) auto

lemma split_join:
  "parts \<noteq> [] \<Longrightarrow> list_all (\<lambda>p. CHR ''.'' \<notin> set p) parts \<Longrightarrow>
     split_on CHR ''.'' (join_with ''.'' parts) = parts"
  by (induction "''.''" parts rule: join_with.induct) (simp_all add: split_on_none split_on_append)

lemma split_on_nonempty: "split_on sep s \<noteq> []"
  by (induction s) (auto split: list.splits)

lemma split_on_parts: "list_all (\<lambda>p. sep \<notin> set p) (split_on sep s)"
  by (induction s) (auto split: list.splits)

lemma py_str_no_dot: "CHR ''.'' \<notin> set (py_str i)"
proof -
  have nd: "\<not> is_digit CHR ''.''"
    by (simp add: is_digit_def)
  have "CHR ''.'' \<notin> set (nat_digits n)" for n
    using nat_digits_digits [of n] nd by (auto simp: list_all_iff)
  then show ?thesis by (simp add: py_str_def)
qed

lemma bump_version_again:
  assumes "bump_version v = Some v'"
  shows "bump_version v' \<noteq> None"
proof -
  let ?parts = "split_on CHR ''.'' v"
  from assms obtain n where len: "3 \<le> length ?parts" and n: "py_int (?parts ! 2) = Some n"
    and v': "v' = join_with ''.'' (?parts[2 := py_str (n + 1)])"
    by (auto simp: bump_version_def Let_def split: if_splits option.splits)
  let ?new = "?parts[2 := py_str (n + 1)]"
  have "list_all (\<lambda>p. CHR ''.'' \<notin> set p) ?new"
    using split_on_parts [of "CHR ''.''" v] py_str_no_dot [of "n + 1"]
    by (auto simp: list_all_iff dest!: set_update_subset_insert [THEN subsetD])
  moreover have "?new \<noteq> []" using len by auto
  ultimately have "split_on CHR ''.'' v' = ?new"
    unfolding v' by (rule split_join [rotated])
  with len show ?thesis
    by (simp add: bump_version_def py_int_py_str)
qed

lemma create_keeps_hash:
  assumes "\<And>k s. sops agent k = Some s \<Longrightarrow>
      content_hash s = compute_hash (steps s) \<and> bump_version (version s) \<noteq> None"
    and "sops (snd (create_sop_from_operations now agent sid nm d c p ops who)) k = Some s"
  shows "content_hash s = compute_hash (steps s) \<and> bump_version (version s) \<noteq> None"
proof (cases "sops agent sid = None \<and> k = sid")
  case True
  with assms(2) show ?thesis
    by (auto simp: create_sop_from_operations_def Let_def bump_version_first)
next
  case False
  with assms(2) have "sops agent k = Some s"
    by (auto simp: create_sop_from_operations_def Let_def split: if_splits)
  then show ?thesis by (rule assms(1))
qed

lemma execute_keeps_hash:
  assumes "\<And>k s. sops agent k = Some s \<Longrightarrow>
      content_hash s = compute_hash (steps s) \<and> bump_version (version s) \<noteq> None"
    and "sops (snd (execute_sop env agent sid dry)) k = Some s"
  shows "content_hash s = compute_hash (steps s) \<and> bump_version (version s) \<noteq> None"
proof (cases "sops agent sid")
  case None
  with assms(2) have "sops agent k = Some s"
    by (simp add: execute_sop_def)
  then show ?thesis by (rule assms(1))
next
  case (Some sop)
  note old = assms(1) [OF Some]
  show ?thesis
  proof (cases "k = sid")
    case True
    with assms(2) Some old show ?thesis
      by (auto simp: execute_sop_def Let_def count_execution_def split: if_splits)
  next
    case False
    with assms(2) Some have "sops agent k = Some s"
      by (auto simp: execute_sop_def Let_def split: if_splits)
    then show ?thesis by (rule assms(1))
  qed
qed

lemma validate_keeps_hash:
  assumes "\<And>k s. sops agent k = Some s \<Longrightarrow>
      content_hash s = compute_hash (steps s) \<and> bump_version (version s) \<noteq> None"
    and "sops (snd (validate_sop env agent sid)) k = Some s"
  shows "content_hash s = compute_hash (steps s) \<and> bump_version (version s) \<noteq> None"
proof (cases "sops agent sid")
  case None
  with assms(2) have "sops agent k = Some s"
    by (simp add: validate_sop_def)
  then show ?thesis by (rule assms(1))
next
  case (Some sop)
  obtain res agent1 where ex: "execute_sop env agent sid True = (res, agent1)"
    by (cases "execute_sop env agent sid True")
  have inv1: "content_hash t = compute_hash (steps t) \<and> bump_version (version t) \<noteq> None"
    if "sops agent1 j = Some t" for j t
    using execute_keeps_hash [of agent env sid True j t] assms(1) that ex by simp
  show ?thesis
  proof (cases "sops agent1 k = Some s")
    case True
    then show ?thesis by (rule inv1)
  next
    case False
    from execute_sop_counts [OF Some, of env True] ex obtain t where
      t: "sops agent1 sid = Some t"
      by auto
    with False assms(2) Some ex have s: "s = t\<lparr>SOPDefinition.status := VALIDATED\<rparr>"
      by (cases res) (auto simp: validate_sop_def Let_def split: if_splits prod.splits)
    from inv1 [OF t] s show ?thesis by simp
  qed
qed

lemma refine_keeps_hash:
  assumes "\<And>k s. sops agent k = Some s \<Longrightarrow>
      content_hash s = compute_hash (steps s) \<and> bump_version (version s) \<noteq> None"
    and "sops (snd (refine_sop now agent sid updates who)) k = Some s"
  shows "content_hash s = compute_hash (steps s) \<and> bump_version (version s) \<noteq> None"
proof (cases "sops agent sid")
  case None
  with assms(2) have "sops agent k = Some s"
    by (simp add: refine_sop_def)
  then show ?thesis by (rule assms(1))
next
  case (Some sop)
  from assms(1) [OF Some] obtain v where v: "bump_version (version sop) = Some v"
    by auto
  show ?thesis
  proof (cases "k = sid")
    case True
    with assms(2) Some v bump_version_again [OF v] show ?thesis
      by (auto simp: refine_sop_def Let_def)
  next
    case False
    with assms(2) Some v have "sops agent k = Some s"
      by (auto simp: refine_sop_def Let_def)
    then show ?thesis by (rule assms(1))
  qed
qed

lemma api_run_snoc: "api_run (calls @ [c]) = api_step (api_run calls) c"
  by (simp add: api_run_def)

lemma api_run_keeps_hash:
  "sops (api_run calls) k = Some s \<Longrightarrow>
     content_hash s = compute_hash (steps s) \<and> bump_version (version s) \<noteq> None"
proof (induction calls arbitrary: k s rule: rev_induct)
  case Nil
  then show ?case by (simp add: api_run_def new_agent_def)
next
  case (snoc c calls)
  show ?case
  proof (cases c)
    case (Create now sid nm d cpt p ops who)
    with snoc.prems show ?thesis
      using create_keeps_hash [of "api_run calls" now sid nm d cpt p ops who k s] snoc.IH
      by (simp add: api_run_snoc)
  next
    case (Execute env sid dry)
    with snoc.prems show ?thesis
      using execute_keeps_hash [of "api_run calls" env sid dry k s] snoc.IH
      by (simp add: api_run_snoc)
  next
    case (Validate env sid)
    with snoc.prems show ?thesis
      using validate_keeps_hash [of "api_run calls" env sid k s] snoc.IH
      by (simp add: api_run_snoc)
  next
    case (Refine now sid updates who)
    with snoc.prems show ?thesis
      using refine_keeps_hash [of "api_run calls" now sid updates who k s] snoc.IH
      by (simp add: api_run_snoc)
  qed
qed

lemma refine_reachable_succeeds:
  assumes "sops (api_run calls) k = Some s"
  shows "fst (fst (refine_sop now (api_run calls) k updates who))"
proof -
  from api_run_keeps_hash [OF assms] obtain v where "bump_version (version s) = Some v"
    by auto
  with assms show ?thesis
    by (simp add: refine_sop_def Let_def)
qed

text \<open>
  Claim C9. \<^verbatim>\<open>_compute_hash\<close> takes the list of steps and nothing else: it is the SHA-256
  digest of the JSON text of the steps in their order, so two SOPs with the same steps,
  field for field and in the same order, have the same hash whatever their other fields
  are (third conjunct). A call of \<^verbatim>\<open>refine_sop\<close> that reports success has stored the hash
  of the steps as the updates left them (first conjunct), and
  \<^verbatim>\<open>create_sop_from_operations\<close> stores the hash of the steps it built (second conjunct).
  A call of \<^verbatim>\<open>refine_sop\<close> reports failure, and computes no hash, only for an unknown id
  or a version that cannot be incremented; no SOP that the agent has created has such a
  version. So in every state that calls of create, execute, validate and refine reach from
  an agent that loaded no SOP, the hash of every stored SOP is the hash of its steps
  (fourth conjunct), and refining a stored SOP succeeds (fifth conjunct).
\<close>

theorem content_hash_of_steps:
  "(refine_sop now agent sid updates who = ((True, msg), agent') \<longrightarrow>
      (\<exists>sop sop'. sops agent sid = Some sop \<and> sops agent' sid = Some sop'
         \<and> steps sop' = apply_updates updates (steps sop)
         \<and> content_hash sop' = compute_hash (steps sop')))
   \<and> (create_sop_from_operations now2 agent2 sid2 nm d c p ops who2 = ((True, msg2), agent2') \<longrightarrow>
        (\<exists>sop'. sops agent2' sid2 = Some sop' \<and> steps sop' = steps_from c 1 ops
           \<and> content_hash sop' = compute_hash (steps sop')))
   \<and> (steps d1 = steps d2 \<longrightarrow> compute_hash (steps d1) = compute_hash (steps d2))
   \<and> (\<forall>k s. sops (api_run calls) k = Some s \<longrightarrow> content_hash s = compute_hash (steps s))
   \<and> (\<forall>k s t us w. sops (api_run calls) k = Some s \<longrightarrow>
         fst (fst (refine_sop t (api_run calls) k us w)))"
  using refine_sop_hash create_sop_hash api_run_keeps_hash refine_reachable_succeeds
  by simp

theorem content_hash_of_steps_witness:
  "refine_sop ''2024-01-02'' (test_agent (test_sop [first_step, second_step [1]] []))
       ''test_sop'' [(1, [Set_name ''Check'']), (2, [Set_dependencies []])] ''validator''
     = ((True, ''SOP refined to v1.0.1''),
        snd (refine_sop ''2024-01-02'' (test_agent (test_sop [first_step, second_step [1]] []))
          ''test_sop'' [(1, [Set_name ''Check'']), (2, [Set_dependencies []])] ''validator''))
   \<and> (\<exists>sop'. sops (snd (refine_sop ''2024-01-02''
                  (test_agent (test_sop [first_step, second_step [1]] [])) ''test_sop''
                  [(1, [Set_name ''Check'']), (2, [Set_dependencies []])] ''validator''))
                ''test_sop'' = Some sop'
          \<and> steps sop' = [first_step\<lparr>SOPStep.name := ''Check''\<rparr>, second_step []]
          \<and> content_hash sop'
              = compute_hash [first_step\<lparr>SOPStep.name := ''Check''\<rparr>, second_step []])
   \<and> (\<exists>s. sops (api_run test_calls) ''git_commit_workflow'' = Some s
          \<and> version s = ''1.0.1'' \<and> map command (steps s) = [''git status'']
          \<and> content_hash s = compute_hash (steps s))"
proof -
  let ?agent = "test_agent (test_sop [first_step, second_step [1]] [])"
  let ?us = "[(1, [Set_name ''Check'']), (2, [Set_dependencies []])]"
  let ?r = "refine_sop ''2024-01-02'' ?agent ''test_sop'' ?us ''validator''"
  have ok: "?r = ((True, ''SOP refined to v1.0.1''), snd ?r)"
    by (simp add: refine_sop_def Let_def bump_version_first)
  have st: "apply_updates ?us [first_step, second_step [1]]
      = [first_step\<lparr>SOPStep.name := ''Check''\<rparr>, second_step []]"
    by (simp add: first_step_def second_step_def)
  from content_hash_of_steps [THEN conjunct1, rule_format, OF ok]
  obtain sop sop' where
    "sops ?agent ''test_sop'' = Some sop" "sops (snd ?r) ''test_sop'' = Some sop'"
    "steps sop' = apply_updates ?us (steps sop)" "content_hash sop' = compute_hash (steps sop')"
    by blast
  with st have "sops (snd ?r) ''test_sop'' = Some sop'
      \<and> steps sop' = [first_step\<lparr>SOPStep.name := ''Check''\<rparr>, second_step []]
      \<and> content_hash sop' = compute_hash [first_step\<lparr>SOPStep.name := ''Check''\<rparr>, second_step []]"
    by auto
  with ok have first: "?r = ((True, ''SOP refined to v1.0.1''), snd ?r)
      \<and> (\<exists>sop'. sops (snd ?r) ''test_sop'' = Some sop'
            \<and> steps sop' = [first_step\<lparr>SOPStep.name := ''Check''\<rparr>, second_step []]
            \<and> content_hash sop'
                = compute_hash [first_step\<lparr>SOPStep.name := ''Check''\<rparr>, second_step []])"
    by auto
  obtain s where s: "sops (api_run test_calls) ''git_commit_workflow'' = Some s"
    "version s = ''1.0.1''" "map command (steps s) = [''git status'']"
    by (simp add: api_run_def new_agent_def test_calls_def create_sop_from_operations_def
        refine_sop_def Let_def bump_version_first step_of_operation_def get_or_def
        test_operation_def)
  have "content_hash s = compute_hash (steps s)"
    by (rule content_hash_of_steps [where calls = test_calls, THEN conjunct2, THEN conjunct2,
          THEN conjunct2, THEN conjunct1, rule_format, OF s(1)])
  with s have "\<exists>s. sops (api_run test_calls) ''git_commit_workflow'' = Some s
      \<and> version s = ''1.0.1'' \<and> map command (steps s) = [''git status'']
      \<and> content_hash s = compute_hash (steps s)"
    by auto
  with first show ?thesis by (intro conjI) auto
qed

end
